theory Spec2Isabelle
  imports Main "HOL-Library.Word" "HOL-Library.Char_ord" "HOL-Library.List_Lexorder"
    "HOL-Library.Multiset"
begin

unbundle bit_operations_syntax

section \<open>Run identity and idempotent artifact cache of the ML8s training pipeline\<close>

text \<open>
  A shallow embedding of \<^verbatim>\<open>src/training_pipeline/config.py\<close> and
  \<^verbatim>\<open>src/training_pipeline/pipeline.py\<close>. A Python string is the \<open>string\<close> of the
  bytes of its UTF-8 encoding, so \<^verbatim>\<open>s.encode("utf-8")\<close> is the identity, a character
  beyond ASCII is two to four bytes, and the order of strings is the order of their code
  points. Decimal digits and letters are the ASCII ones. A leading underscore of a Python
  name is dropped (\<^verbatim>\<open>_norm_scalar\<close> is \<open>norm_scalar\<close>).
\<close>

subsection \<open>Strings\<close>

definition is_space :: "char \<Rightarrow> bool" where
  "is_space c = (let n = (of_char c :: nat) in (9 \<le> n \<and> n \<le> 13) \<or> (28 \<le> n \<and> n \<le> 32))"

definition is_digit :: "char \<Rightarrow> bool" where
  "is_digit c = (let n = (of_char c :: nat) in 48 \<le> n \<and> n \<le> 57)"

text \<open>
  \<^verbatim>\<open>str.strip()\<close> removes every character \<^verbatim>\<open>c\<close> with \<^verbatim>\<open>c.isspace()\<close> from both ends:
  the ASCII ones above, and U+0085, U+00A0 (two bytes), U+1680, U+2000 to U+200A, U+2028,
  U+2029, U+202F, U+205F and U+3000 (three bytes).
\<close>

definition is_space2 :: "char \<Rightarrow> char \<Rightarrow> bool" where
  "is_space2 a b = (a = CHR 0xC2 \<and> (b = CHR 0x85 \<or> b = CHR 0xA0))"

definition is_space3 :: "char \<Rightarrow> char \<Rightarrow> char \<Rightarrow> bool" where
  "is_space3 a b c =
     (let n = (of_char c :: nat) in
      (a = CHR 0xE1 \<and> b = CHR 0x9A \<and> n = 0x80)
      \<or> (a = CHR 0xE2 \<and> b = CHR 0x80
           \<and> ((0x80 \<le> n \<and> n \<le> 0x8A) \<or> n = 0xA8 \<or> n = 0xA9 \<or> n = 0xAF))
      \<or> (a = CHR 0xE2 \<and> b = CHR 0x81 \<and> n = 0x9F)
      \<or> (a = CHR 0xE3 \<and> b = CHR 0x80 \<and> n = 0x80))"

fun lstrip :: "string \<Rightarrow> string" where
  "lstrip (a # b # c # s) =
     (if is_space a then lstrip (b # c # s)
      else if is_space2 a b then lstrip (c # s)
      else if is_space3 a b c then lstrip s
      else a # b # c # s)"
| "lstrip [a, b] = (if is_space a then lstrip [b] else if is_space2 a b then [] else [a, b])"
| "lstrip [a] = (if is_space a then [] else [a])"
| "lstrip [] = []"

text \<open>The same from the end, on the reversed string.\<close>

fun rstrip_rev :: "string \<Rightarrow> string" where
  "rstrip_rev (c # b # a # s) =
     (if is_space c then rstrip_rev (b # a # s)
      else if is_space2 b c then rstrip_rev (a # s)
      else if is_space3 a b c then rstrip_rev s
      else c # b # a # s)"
| "rstrip_rev [c, b] = (if is_space c then rstrip_rev [b] else if is_space2 b c then [] else [c, b])"
| "rstrip_rev [c] = (if is_space c then [] else [c])"
| "rstrip_rev [] = []"

definition strip :: "string \<Rightarrow> string" where
  "strip s = rev (rstrip_rev (rev (lstrip s)))"

definition rstrip_slash :: "string \<Rightarrow> string" where
  "rstrip_slash s = rev (dropWhile (\<lambda>c. c = CHR ''/'') (rev s))"

definition lower_char :: "char \<Rightarrow> char" where
  "lower_char c = (let n = (of_char c :: nat) in if 65 \<le> n \<and> n \<le> 90 then char_of (n + 32) else c)"

definition lower :: "string \<Rightarrow> string" where
  "lower s = map lower_char s"

definition startswith :: "string \<Rightarrow> string \<Rightarrow> bool" where
  "startswith s p = (take (length p) s = p)"

definition endswith :: "string \<Rightarrow> string \<Rightarrow> bool" where
  "endswith s p = (drop (length s - length p) s = p \<and> length p \<le> length s)"

text \<open>\<^verbatim>\<open>s.split(sep)\<close> for a one-character separator: never an empty result.\<close>

fun split_on :: "char \<Rightarrow> string \<Rightarrow> string list" where
  "split_on sep [] = [[]]"
| "split_on sep (c # cs) =
     (if c = sep then [] # split_on sep cs
      else (case split_on sep cs of [] \<Rightarrow> [[c]] | w # ws \<Rightarrow> (c # w) # ws))"

text \<open>\<^verbatim>\<open>sep.join(xs)\<close>.\<close>

fun join :: "string \<Rightarrow> string list \<Rightarrow> string" where
  "join sep [] = []"
| "join sep [x] = x"
| "join sep (x # y # ys) = x @ sep @ join sep (y # ys)"

text \<open>\<^verbatim>\<open>list(dict.fromkeys(xs))\<close>: the first occurrence of each element, in order.\<close>

definition dict_fromkeys :: "'a list \<Rightarrow> 'a list" where
  "dict_fromkeys xs = rev (remdups (rev xs))"

definition digit_char :: "nat \<Rightarrow> char" where
  "digit_char n = char_of (48 + n mod 10)"

fun str_nat :: "nat \<Rightarrow> string" where
  "str_nat n = (if n < 10 then [digit_char n] else str_nat (n div 10) @ [digit_char n])"

declare str_nat.simps [simp del]

definition str_int :: "int \<Rightarrow> string" where
  "str_int i = (if i < 0 then CHR ''-'' # str_nat (nat (- i)) else str_nat (nat i))"

definition digit_val :: "char \<Rightarrow> nat" where
  "digit_val c = of_char c - 48"

definition nat_of_digits :: "string \<Rightarrow> nat" where
  "nat_of_digits ds = foldl (\<lambda>a c. 10 * a + digit_val c) 0 ds"

subsection \<open>Hashes of \<^verbatim>\<open>hashlib\<close>\<close>

text \<open>
  \<^verbatim>\<open>hashlib.sha256\<close> (FIPS 180-4) and \<^verbatim>\<open>hashlib.md5\<close> (RFC 1321) on byte strings;
  \<^verbatim>\<open>s.encode("utf-8")\<close> is the identity on the bytes of \<open>s\<close>.
\<close>

type_synonym u32 = "32 word"

definition hex_digit :: "nat \<Rightarrow> char" where
  "hex_digit n = ''0123456789abcdef'' ! (n mod 16)"

definition hex_byte :: "nat \<Rightarrow> string" where
  "hex_byte b = [hex_digit (b div 16), hex_digit b]"

definition hexlify :: "string \<Rightarrow> string" where
  "hexlify bs = concat (map (\<lambda>c. hex_byte (of_char c)) bs)"

definition rotr :: "nat \<Rightarrow> u32 \<Rightarrow> u32" where
  "rotr n x = drop_bit n x OR push_bit (32 - n) x"

definition rotl :: "nat \<Rightarrow> u32 \<Rightarrow> u32" where
  "rotl n x = push_bit n x OR drop_bit (32 - n) x"

fun chunks :: "nat \<Rightarrow> 'a list \<Rightarrow> 'a list list" where
  "chunks n [] = []"
| "chunks n (x # xs) = (if n = 0 then [] else take n (x # xs) # chunks n (drop n (x # xs)))"

definition be_word :: "string \<Rightarrow> u32" where
  "be_word bs = foldl (\<lambda>acc c. push_bit 8 acc OR of_nat (of_char c)) 0 bs"

definition le_word :: "string \<Rightarrow> u32" where
  "le_word bs = be_word (rev bs)"

definition low_byte :: "'a::len word \<Rightarrow> char" where
  "low_byte w = Char (bit w 0) (bit w 1) (bit w 2) (bit w 3) (bit w 4) (bit w 5) (bit w 6) (bit w 7)"

definition be_bytes :: "nat \<Rightarrow> 'a::len word \<Rightarrow> string" where
  "be_bytes k w = map (\<lambda>i. low_byte (drop_bit (8 * (k - 1 - i)) w)) [0..<k]"

definition le_bytes :: "nat \<Rightarrow> 'a::len word \<Rightarrow> string" where
  "le_bytes k n = rev (be_bytes k n)"

definition md_pad_zeros :: "nat \<Rightarrow> nat" where
  "md_pad_zeros len = (119 - len mod 64) mod 64"

definition sha256_pad :: "string \<Rightarrow> string" where
  "sha256_pad m = m @ [char_of (128::nat)] @ replicate (md_pad_zeros (length m)) (char_of (0::nat))
                    @ be_bytes 8 (of_nat (8 * length m) :: 64 word)"

definition sha256_K :: "u32 list" where
  "sha256_K = [
    1116352408, 1899447441, 3049323471, 3921009573, 961987163, 1508970993, 2453635748, 2870763221,
    3624381080, 310598401, 607225278, 1426881987, 1925078388, 2162078206, 2614888103, 3248222580,
    3835390401, 4022224774, 264347078, 604807628, 770255983, 1249150122, 1555081692, 1996064986,
    2554220882, 2821834349, 2952996808, 3210313671, 3336571891, 3584528711, 113926993, 338241895,
    666307205, 773529912, 1294757372, 1396182291, 1695183700, 1986661051, 2177026350, 2456956037,
    2730485921, 2820302411, 3259730800, 3345764771, 3516065817, 3600352804, 4094571909, 275423344,
    430227734, 506948616, 659060556, 883997877, 958139571, 1322822218, 1537002063, 1747873779,
    1955562222, 2024104815, 2227730452, 2361852424, 2428436474, 2756734187, 3204031479, 3329325298]"

definition sha256_H0 :: "u32 list" where
  "sha256_H0 = [1779033703, 3144134277, 1013904242, 2773480762,
                1359893119, 2600822924, 528734635, 1541459225]"

definition ssig0 :: "u32 \<Rightarrow> u32" where
  "ssig0 x = rotr 7 x XOR rotr 18 x XOR drop_bit 3 x"

definition ssig1 :: "u32 \<Rightarrow> u32" where
  "ssig1 x = rotr 17 x XOR rotr 19 x XOR drop_bit 10 x"

definition bsig0 :: "u32 \<Rightarrow> u32" where
  "bsig0 x = rotr 2 x XOR rotr 13 x XOR rotr 22 x"

definition bsig1 :: "u32 \<Rightarrow> u32" where
  "bsig1 x = rotr 6 x XOR rotr 11 x XOR rotr 25 x"

text \<open>The message schedule is built newest word first and reversed at the end.\<close>

fun sha256_extend :: "nat \<Rightarrow> u32 list \<Rightarrow> u32 list" where
  "sha256_extend 0 ws = ws"
| "sha256_extend (Suc n) ws =
     sha256_extend n ((ssig1 (ws ! 1) + ws ! 6 + ssig0 (ws ! 14) + ws ! 15) # ws)"

definition sha256_schedule :: "string \<Rightarrow> u32 list" where
  "sha256_schedule block = rev (sha256_extend 48 (rev (map be_word (chunks 4 block))))"

fun sha256_round :: "u32 list \<Rightarrow> u32 \<times> u32 \<Rightarrow> u32 list" where
  "sha256_round [a, b, c, d, e, f, g, h] (k, w) =
     (let t1 = h + bsig1 e + ((e AND f) XOR (NOT e AND g)) + k + w;
          t2 = bsig0 a + ((a AND b) XOR (a AND c) XOR (b AND c))
      in [t1 + t2, a, b, c, d + t1, e, f, g])"
| "sha256_round s _ = s"

definition sha256_compress :: "u32 list \<Rightarrow> string \<Rightarrow> u32 list" where
  "sha256_compress hs block =
     map2 (+) hs (foldl sha256_round hs (zip sha256_K (sha256_schedule block)))"

definition sha256_digest :: "string \<Rightarrow> string" where
  "sha256_digest m =
     concat (map (\<lambda>w. be_bytes 4 w) (foldl sha256_compress sha256_H0 (chunks 64 (sha256_pad m))))"

definition sha256_hexdigest :: "string \<Rightarrow> string" where
  "sha256_hexdigest m = hexlify (sha256_digest m)"

text \<open>MD5 (RFC 1321).\<close>

definition md5_pad :: "string \<Rightarrow> string" where
  "md5_pad m = m @ [char_of (128::nat)] @ replicate (md_pad_zeros (length m)) (char_of (0::nat))
                 @ le_bytes 8 (of_nat (8 * length m) :: 64 word)"

definition md5_S :: "nat list" where
  "md5_S = concat (map (\<lambda>r. concat (replicate 4 r))
     [[7, 12, 17, 22], [5, 9, 14, 20], [4, 11, 16, 23], [6, 10, 15, 21]])"

definition md5_K :: "u32 list" where
  "md5_K = [
    0xd76aa478, 0xe8c7b756, 0x242070db, 0xc1bdceee, 0xf57c0faf, 0x4787c62a, 0xa8304613, 0xfd469501,
    0x698098d8, 0x8b44f7af, 0xffff5bb1, 0x895cd7be, 0x6b901122, 0xfd987193, 0xa679438e, 0x49b40821,
    0xf61e2562, 0xc040b340, 0x265e5a51, 0xe9b6c7aa, 0xd62f105d, 0x02441453, 0xd8a1e681, 0xe7d3fbc8,
    0x21e1cde6, 0xc33707d6, 0xf4d50d87, 0x455a14ed, 0xa9e3e905, 0xfcefa3f8, 0x676f02d9, 0x8d2a4c8a,
    0xfffa3942, 0x8771f681, 0x6d9d6122, 0xfde5380c, 0xa4beea44, 0x4bdecfa9, 0xf6bb4b60, 0xbebfbc70,
    0x289b7ec6, 0xeaa127fa, 0xd4ef3085, 0x04881d05, 0xd9d4d039, 0xe6db99e5, 0x1fa27cf8, 0xc4ac5665,
    0xf4292244, 0x432aff97, 0xab9423a7, 0xfc93a039, 0x655b59c3, 0x8f0ccc92, 0xffeff47d, 0x85845dd1,
    0x6fa87e4f, 0xfe2ce6e0, 0xa3014314, 0x4e0811a1, 0xf7537e82, 0xbd3af235, 0x2ad7d2bb, 0xeb86d391]"

definition md5_H0 :: "u32 list" where
  "md5_H0 = [0x67452301, 0xefcdab89, 0x98badcfe, 0x10325476]"

definition md5_F :: "nat \<Rightarrow> u32 \<Rightarrow> u32 \<Rightarrow> u32 \<Rightarrow> u32" where
  "md5_F i b c d =
     (if i < 16 then (b AND c) OR (NOT b AND d)
      else if i < 32 then (d AND b) OR (NOT d AND c)
      else if i < 48 then b XOR c XOR d
      else c XOR (b OR NOT d))"

definition md5_g :: "nat \<Rightarrow> nat" where
  "md5_g i =
     (if i < 16 then i
      else if i < 32 then (5 * i + 1) mod 16
      else if i < 48 then (3 * i + 5) mod 16
      else (7 * i) mod 16)"

fun md5_round :: "u32 list \<Rightarrow> u32 list \<Rightarrow> nat \<Rightarrow> u32 list" where
  "md5_round ms [a, b, c, d] i =
     [d, b + rotl (md5_S ! i) (a + md5_F i b c d + md5_K ! i + ms ! md5_g i), b, c]"
| "md5_round ms s _ = s"

definition md5_compress :: "u32 list \<Rightarrow> string \<Rightarrow> u32 list" where
  "md5_compress hs block =
     map2 (+) hs (foldl (md5_round (map le_word (chunks 4 block))) hs [0..<64])"

definition md5_digest :: "string \<Rightarrow> string" where
  "md5_digest m =
     concat (map (\<lambda>w. le_bytes 4 w) (foldl md5_compress md5_H0 (chunks 64 (md5_pad m))))"

definition md5_hexdigest :: "string \<Rightarrow> string" where
  "md5_hexdigest m = hexlify (md5_digest m)"

subsection \<open>Python values and JSON\<close>

text \<open>
  The values a configuration field can hold. A list holds integers or strings
  (\<^verbatim>\<open>List[int]\<close>, \<^verbatim>\<open>List[str]\<close>). A float is kept as the decimal literal it was
  read from: rounding to a double and \<^verbatim>\<open>repr\<close> are outside the model.
\<close>

datatype atom = AInt int | AStr string

datatype pyval = PNone | PBool bool | PInt int | PFloat string | PStr string | PList "atom list"

datatype error =
    RuntimeError string
  | AttributeError string
  | TypeError string
  | BackendError string

text \<open>\<^verbatim>\<open>str(e)\<close> of an exception: its message.\<close>

fun error_text :: "error \<Rightarrow> string" where
  "error_text (RuntimeError m) = m"
| "error_text (AttributeError m) = m"
| "error_text (TypeError m) = m"
| "error_text (BackendError m) = m"

fun str_atom :: "atom \<Rightarrow> string" where
  "str_atom (AInt i) = str_int i"
| "str_atom (AStr s) = s"

fun truthy :: "pyval \<Rightarrow> bool" where
  "truthy PNone = False"
| "truthy (PBool b) = b"
| "truthy (PInt i) = (i \<noteq> 0)"
| "truthy (PFloat f) = (\<exists>c \<in> set f. is_digit c \<and> c \<noteq> CHR ''0'')"
| "truthy (PStr s) = (s \<noteq> [])"
| "truthy (PList xs) = (xs \<noteq> [])"

datatype json =
    JNull | JBool bool | JInt int | JFloat string | JStr string
  | JArr "json list" | JObj "(string \<times> json) list"

fun json_of_atom :: "atom \<Rightarrow> json" where
  "json_of_atom (AInt i) = JInt i"
| "json_of_atom (AStr s) = JStr s"

fun json_of_pyval :: "pyval \<Rightarrow> json" where
  "json_of_pyval PNone = JNull"
| "json_of_pyval (PBool b) = JBool b"
| "json_of_pyval (PInt i) = JInt i"
| "json_of_pyval (PFloat f) = JFloat f"
| "json_of_pyval (PStr s) = JStr s"
| "json_of_pyval (PList xs) = JArr (map json_of_atom xs)"

text \<open>String escaping of \<^verbatim>\<open>json.dumps(..., ensure_ascii=False)\<close>.\<close>

definition json_escape_char :: "char \<Rightarrow> string" where
  "json_escape_char c =
     (let n = (of_char c :: nat) in
      if c = CHR 0x22 then [CHR 0x5C, CHR 0x22]
      else if c = CHR 0x5C then [CHR 0x5C, CHR 0x5C]
      else if n = 10 then [CHR 0x5C, CHR ''n'']
      else if n = 13 then [CHR 0x5C, CHR ''r'']
      else if n = 9 then [CHR 0x5C, CHR ''t'']
      else if n = 8 then [CHR 0x5C, CHR ''b'']
      else if n = 12 then [CHR 0x5C, CHR ''f'']
      else if n < 32 then [CHR 0x5C, CHR ''u'', CHR ''0'', CHR ''0''] @ hex_byte n
      else [c])"

definition json_string :: "string \<Rightarrow> string" where
  "json_string s = [CHR 0x22] @ concat (map json_escape_char s) @ [CHR 0x22]"

text \<open>
  \<^verbatim>\<open>json.dumps(obj, separators=(",", ":"), sort_keys=True, ensure_ascii=False)\<close>.
  An object is an association list with distinct keys, as a Python dict has.
\<close>

fun json_dumps_compact :: "json \<Rightarrow> string" where
  "json_dumps_compact JNull = ''null''"
| "json_dumps_compact (JBool b) = (if b then ''true'' else ''false'')"
| "json_dumps_compact (JInt i) = str_int i"
| "json_dumps_compact (JFloat f) = f"
| "json_dumps_compact (JStr s) = json_string s"
| "json_dumps_compact (JArr xs) = ''['' @ join '','' (map json_dumps_compact xs) @ '']''"
| "json_dumps_compact (JObj kvs) =
     ''{'' @ join '',''
        (map (\<lambda>kv. json_string (fst kv) @ '':'' @ json_dumps_compact (snd kv)) (sort_key fst kvs))
      @ ''}''"

text \<open>\<^verbatim>\<open>json.dumps(obj, indent=2, sort_keys=True, ensure_ascii=False)\<close> at nesting depth \<open>d\<close>.\<close>

definition json_newline :: "nat \<Rightarrow> string" where
  "json_newline d = CHR 0x0A # replicate (2 * d) CHR '' ''"

fun json_dumps_indent :: "nat \<Rightarrow> json \<Rightarrow> string" where
  "json_dumps_indent d JNull = ''null''"
| "json_dumps_indent d (JBool b) = (if b then ''true'' else ''false'')"
| "json_dumps_indent d (JInt i) = str_int i"
| "json_dumps_indent d (JFloat f) = f"
| "json_dumps_indent d (JStr s) = json_string s"
| "json_dumps_indent d (JArr xs) =
     (if xs = [] then ''[]''
      else ''['' @ json_newline (Suc d)
           @ join ('','' @ json_newline (Suc d)) (map (json_dumps_indent (Suc d)) xs)
           @ json_newline d @ '']'')"
| "json_dumps_indent d (JObj kvs) =
     (if kvs = [] then ''{}''
      else ''{'' @ json_newline (Suc d)
           @ join ('','' @ json_newline (Suc d))
               (map (\<lambda>kv. json_string (fst kv) @ '': '' @ json_dumps_indent (Suc d) (snd kv))
                  (sort_key fst kvs))
           @ json_newline d @ ''}'')"

subsection \<open>ConfigNormalizer: \<^verbatim>\<open>_norm_scalar\<close>\<close>

definition drop_minus :: "string \<Rightarrow> string" where
  "drop_minus s = (case s of [] \<Rightarrow> [] | c # cs \<Rightarrow> if c = CHR ''-'' then cs else s)"

text \<open>\<^verbatim>\<open>re.fullmatch(r"^-?\d+$", s)\<close> and \<^verbatim>\<open>re.fullmatch(r"^-?\d+\.\d+$", s)\<close>.\<close>

definition matches_int :: "string \<Rightarrow> bool" where
  "matches_int s = (drop_minus s \<noteq> [] \<and> list_all is_digit (drop_minus s))"

definition matches_float :: "string \<Rightarrow> bool" where
  "matches_float s =
     (let ds = drop_minus s; a = takeWhile is_digit ds; b = dropWhile is_digit ds
      in a \<noteq> [] \<and> (case b of [] \<Rightarrow> False
                        | c # cs \<Rightarrow> c = CHR ''.'' \<and> cs \<noteq> [] \<and> list_all is_digit cs))"

text \<open>
  \<^verbatim>\<open>int(s)\<close> on a string of the first shape. It raises \<^verbatim>\<open>ValueError\<close> only beyond the
  interpreter's limit on the number of digits (4300 by default); the source catches that
  and goes on to the next rule.
\<close>

definition py_int :: "string \<Rightarrow> int option" where
  "py_int s =
     (let ds = drop_minus s in
      if length ds > 4300 then None
      else Some (if ds = s then int (nat_of_digits ds) else - int (nat_of_digits ds)))"

definition norm_scalar :: "string option \<Rightarrow> pyval" where
  "norm_scalar v =
     (case v of
        None \<Rightarrow> PNone
      | Some raw \<Rightarrow>
          (let s = strip raw; sl = lower s in
           if s = [] then PNone
           else if sl \<in> set [''true'', ''false'', ''1'', ''0'', ''yes'', ''no'']
             then PBool (sl \<in> set [''true'', ''1'', ''yes''])
           else (case (if matches_int s then py_int s else None) of
                   Some n \<Rightarrow> PInt n
                 | None \<Rightarrow>
                     if matches_float s then PFloat s
                     else if CHR '','' \<in> set s
                       then PList (map AStr (sort (dict_fromkeys
                              (filter (\<lambda>i. i \<noteq> []) (map strip (split_on CHR '','' s))))))
                     else PStr s)))"

subsection \<open>Identity-relevant and platform-only variables\<close>

definition IDENTITY_VARS :: "string list" where
  "IDENTITY_VARS = [
    ''DATA_ROOT'', ''TARGET_DATAFRAME'', ''TARGET_COLUMN'', ''TIME_COLUMN'', ''GROUP_COLUMN'',
    ''SAMPLE_ROWS'', ''TASK_TYPE'', ''TASK_SUBTYPE'', ''TEST_SIZE'', ''RANDOM_SEED'',
    ''FORECAST_HORIZON'', ''ENABLE_TIME_SPLIT'', ''ENABLE_RAY_TRANSFORMS'',
    ''ENABLE_FEATURETOOLS'', ''FT_TARGET_ENTITY'', ''FT_MAX_DEPTH'', ''FT_MAX_FEATURES'',
    ''FT_USE_TIME_INDEX'', ''MAX_FEATURES'', ''CORRELATION_THRESHOLD'', ''MAX_MISSING_RATIO'',
    ''ENABLE_LAG_FEATURES'', ''LAG_PERIODS'', ''ENABLE_ROLLING_FEATURES'',
    ''ROLLING_WINDOWS'', ''AUTOML_TIME_BUDGET'', ''MODEL_LIST'', ''HANDLE_IMBALANCE'',
    ''IMBALANCE_STRATEGY'', ''PRIMARY_METRIC'', ''RETRAIN_FROM_MODEL_URI'', ''MODEL_FORMAT'',
    ''SPLIT_STRATEGY'', ''TRAIN_SIZE'', ''CV_FOLDS'', ''STRATIFY_BY'', ''GROUP_SPLIT_COLUMN'',
    ''CANONICALIZATION_VERSION'', ''STRICT_DATA_FINGERPRINT'']"

definition PLATFORM_VARS :: "string list" where
  "PLATFORM_VARS = [
    ''PIPELINE_ROOT_URI'', ''RAY_ADDRESS'', ''RAY_NUM_CPUS'', ''RAY_NUM_GPUS'',
    ''FE_PARALLELISM'', ''FE_BATCH_SIZE'', ''RAY_USE_STREAMING'', ''RAY_OBJECT_STORE_MEMORY'',
    ''FE_CPU_REQUEST'', ''FE_MEMORY_REQUEST'', ''TRAIN_CPU_REQUEST'',
    ''TRAIN_MEMORY_REQUEST'', ''TRAIN_GPU'', ''CACHE_ENABLED'', ''CACHE_VERSION'',
    ''FORCE_RERUN'', ''MAX_ROWS_FULL_LOAD'', ''MAX_FEATURE_CAP_PLATFORM'',
    ''MAX_AUTOML_TIME_BUDGET'', ''ENABLE_MLFLOW'', ''MLFLOW_TRACKING_URI'',
    ''MLFLOW_EXPERIMENT_PREFIX'', ''MLFLOW_MODEL_NAME'', ''TRAINING_STAGE_TIMEOUT_SECONDS'',
    ''TRAINING_PIPELINE_MAX_SECONDS'', ''PIPELINE_MODE'', ''EXISTING_MODEL_PATH'',
    ''DISTRIBUTED_TRAINING'', ''TRAINING_FRAMEWORK'', ''LOG_LEVEL'', ''REDACTED_ENV_KEYS'',
    ''ARTIFACT_RETENTION_DAYS'', ''TENANT_ID'', ''PROJECT_ID'']"

definition PlatformConfig_fields :: "string list" where
  "PlatformConfig_fields = [
    ''DATA_ROOT'', ''PIPELINE_ROOT_URI'', ''TASK_TYPE'', ''TASK_SUBTYPE'', ''TARGET_COLUMN'',
    ''TARGET_DATAFRAME'', ''ENABLE_TIME_SPLIT'', ''TIME_COLUMN'', ''GROUP_COLUMN'',
    ''FORECAST_HORIZON'', ''SAMPLE_ROWS'', ''STRICT_DATA_FINGERPRINT'',
    ''CANONICALIZATION_VERSION'', ''RANDOM_SEED'', ''TASK_SUBTYPE_HINT'',
    ''ENABLE_RAY_TRANSFORMS'', ''RAY_ADDRESS'', ''RAY_NUM_CPUS'', ''RAY_NUM_GPUS'',
    ''FE_PARALLELISM'', ''FE_BATCH_SIZE'', ''RAY_USE_STREAMING'', ''RAY_OBJECT_STORE_MEMORY'',
    ''ENABLE_FEATURETOOLS'', ''FT_TARGET_ENTITY'', ''FT_MAX_DEPTH'', ''FT_MAX_FEATURES'',
    ''FT_USE_TIME_INDEX'', ''MAX_FEATURES'', ''CORRELATION_THRESHOLD'', ''MAX_MISSING_RATIO'',
    ''ENABLE_LAG_FEATURES'', ''LAG_PERIODS'', ''ENABLE_ROLLING_FEATURES'',
    ''ROLLING_WINDOWS'', ''SPLIT_STRATEGY'', ''TRAIN_SIZE'', ''CV_FOLDS'', ''STRATIFY_BY'',
    ''GROUP_SPLIT_COLUMN'', ''AUTOML_TIME_BUDGET'', ''N_CONCURRENT_TRIALS'', ''MODEL_LIST'',
    ''HANDLE_IMBALANCE'', ''IMBALANCE_STRATEGY'', ''MAX_CLASS_IMBALANCE_RATIO'',
    ''MODEL_BACKEND'', ''DISTRIBUTED_TRAINING'', ''TRAINING_FRAMEWORK'', ''MODEL_FORMAT'',
    ''PRIMARY_METRIC'', ''PIPELINE_MODE'', ''EXISTING_MODEL_PATH'', ''FE_CPU_REQUEST'',
    ''FE_MEMORY_REQUEST'', ''TRAIN_CPU_REQUEST'', ''TRAIN_MEMORY_REQUEST'', ''TRAIN_GPU'',
    ''CACHE_ENABLED'', ''CACHE_VERSION'', ''FORCE_RERUN'', ''MAX_ROWS_FULL_LOAD'',
    ''MAX_FEATURE_CAP_PLATFORM'', ''MAX_AUTOML_TIME_BUDGET'', ''ENABLE_MLFLOW'',
    ''MLFLOW_TRACKING_URI'', ''MLFLOW_EXPERIMENT_PREFIX'', ''MLFLOW_MODEL_NAME'',
    ''TRAINING_STAGE_TIMEOUT_SECONDS'', ''TRAINING_PIPELINE_MAX_SECONDS'',
    ''GLOBAL_RANDOM_SEED'', ''DETERMINISTIC_TRAINING'', ''MIN_ACCEPTABLE_METRIC'',
    ''EARLY_STOPPING_ENABLED'', ''EARLY_STOPPING_ROUNDS'', ''SAVE_OOF_PREDICTIONS'',
    ''ENABLE_FEATURE_IMPORTANCE'', ''ENABLE_SHAP_VALUES'', ''MAX_SHAP_SAMPLES'',
    ''EXPORT_BASELINE_STATISTICS'', ''DRIFT_REFERENCE_WINDOW'', ''EXPORT_PIPELINE_METRICS'',
    ''TENANT_ID'', ''PROJECT_ID'', ''PII_COLUMNS'', ''HASH_PII_COLUMNS'', ''LOG_SAMPLE_ROWS'',
    ''ARTIFACT_RETENTION_DAYS'', ''REDACTED_ENV_KEYS'', ''LOG_LEVEL'']"

subsection \<open>ConfigCanonicalizer and RunIdentity\<close>

text \<open>
  The process environment \<^verbatim>\<open>os.environ\<close> is an association list; a validated
  \<^verbatim>\<open>PlatformConfig\<close> is the map from its attribute names to their values
  (\<^verbatim>\<open>hasattr(cfg, k)\<close> is \<open>cfg k \<noteq> None\<close>).
\<close>

type_synonym environ = "(string \<times> string) list"

type_synonym config = "string \<rightharpoonup> pyval"

fun canonical_value :: "pyval \<Rightarrow> pyval" where
  "canonical_value PNone = PNone"
| "canonical_value (PStr s) = (if s = [] then PNone else PStr s)"
| "canonical_value (PList xs) = PList (map AStr (sort (dict_fromkeys (map str_atom xs))))"
| "canonical_value (PBool b) = PBool b"
| "canonical_value v = v"

definition build_canonical_config :: "config \<Rightarrow> (string \<times> pyval) list" where
  "build_canonical_config cfg =
     map (\<lambda>kv. (fst kv, canonical_value (snd kv)))
       (List.map_filter (\<lambda>k. map_option (Pair k) (cfg k)) IDENTITY_VARS)"

definition canonical_json_str :: "(string \<times> pyval) list \<Rightarrow> string" where
  "canonical_json_str obj = json_dumps_compact (JObj (map (\<lambda>kv. (fst kv, json_of_pyval (snd kv))) obj))"

definition strict_from_env :: "environ \<Rightarrow> bool" where
  "strict_from_env env =
     (case map_of env ''STRICT_DATA_FINGERPRINT'' of
        None \<Rightarrow> False
      | Some v \<Rightarrow> v \<in> set [''1'', ''true'', ''True''])"

definition compute_full_hash_and_run_id ::
  "environ \<Rightarrow> string \<Rightarrow> string option \<Rightarrow> bool option \<Rightarrow> error + string \<times> string" where
  "compute_full_hash_and_run_id env canonical_json data_fingerprint include_data_fingerprint =
     (let inc = (case include_data_fingerprint of None \<Rightarrow> strict_from_env env | Some b \<Rightarrow> b) in
      if inc then
        (case data_fingerprint of
           None \<Rightarrow> Inl (RuntimeError ''Data fingerprint required but not provided'')
         | Some fp \<Rightarrow>
             if fp = [] then Inl (RuntimeError ''Data fingerprint required but not provided'')
             else (let full = sha256_hexdigest (canonical_json @ [CHR 0x0A] @ fp)
                   in Inr (full, take 12 full)))
      else (let full = sha256_hexdigest canonical_json in Inr (full, take 12 full)))"

definition derive_artifact_root :: "string \<Rightarrow> string \<Rightarrow> error + string" where
  "derive_artifact_root pipeline_root_uri run_id =
     (if pipeline_root_uri = []
      then Inl (RuntimeError ''PIPELINE_ROOT_URI is required to derive artifact root'')
      else Inr (rstrip_slash pipeline_root_uri @ ''/ml8s_training_runs/'' @ run_id))"

definition canonical_json_and_hash ::
  "environ \<Rightarrow> config \<Rightarrow> string option \<Rightarrow> error + string \<times> string \<times> string" where
  "canonical_json_and_hash env cfg data_fingerprint =
     (let canonical_cfg = build_canonical_config cfg;
          canonical_json = canonical_json_str canonical_cfg
      in case cfg ''STRICT_DATA_FINGERPRINT'' of
           None \<Rightarrow> Inl (AttributeError ''STRICT_DATA_FINGERPRINT'')
         | Some flag \<Rightarrow>
             (case compute_full_hash_and_run_id env canonical_json data_fingerprint
                     (if flag = PNone then None else Some (truthy flag)) of
                Inl e \<Rightarrow> Inl e
              | Inr (full_hash, run_id) \<Rightarrow> Inr (canonical_json, full_hash, run_id)))"

text \<open>
  \<^verbatim>\<open>load_from_env\<close>. \<^verbatim>\<open>PlatformConfig.parse_obj\<close>, the validation done by the pydantic
  library, is the parameter \<open>parse_obj\<close>.
\<close>

definition load_from_env ::
  "((string \<times> pyval) list \<Rightarrow> error + config) \<Rightarrow> environ \<Rightarrow> environ option \<Rightarrow> error + config" where
  "load_from_env parse_obj os_environ os_env =
     (let env = (case os_env of None \<Rightarrow> os_environ | Some e \<Rightarrow> if e = [] then os_environ else e)
      in parse_obj (map (\<lambda>field. (field, norm_scalar (map_of env field))) PlatformConfig_fields))"

subsection \<open>Example data\<close>

definition cfg_example :: "int \<Rightarrow> config" where
  "cfg_example cpus =
     [''TARGET_COLUMN'' \<mapsto> PStr ''is_fraud'', ''STRICT_DATA_FINGERPRINT'' \<mapsto> PBool True,
      ''RAY_NUM_CPUS'' \<mapsto> PInt cpus]"

definition env_a :: environ where
  "env_a = [(''MODEL_LIST'', ''3,1,2,3''), (''STRICT_DATA_FINGERPRINT'', ''true'')]"

definition env_b :: environ where
  "env_b = [(''MODEL_LIST'', ''1,2,3''), (''STRICT_DATA_FINGERPRINT'', ''true'')]"

definition parse_plain :: "(string \<times> pyval) list \<Rightarrow> error + config" where
  "parse_plain kvs = Inr (map_of kvs)"

subsection \<open>Storage backend\<close>

text \<open>
  The object store behind \<^verbatim>\<open>fsspec\<close>: a map from uri to content. \<open>failing\<close> says on
  which operation and path the backend raises before it has changed anything. The two
  operations that move bytes, writing an opened object and copying, can also raise midway:
  \<open>breaks op p = Some n\<close> says that the operation on \<open>p\<close> raises once \<open>n\<close> bytes have
  reached the target, which is then left holding those bytes. Renaming and removing either
  happen or not. \<open>has_rename\<close> and \<open>has_makedirs\<close> are \<^verbatim>\<open>hasattr(fs, "rename")\<close> and
  \<^verbatim>\<open>hasattr(fs, "makedirs")\<close>. Directories are not stored.

  An operation that can leave the store changed when it raises returns the store with the
  error.
\<close>

datatype fs_op = OpMakedirs | OpOpen | OpRename | OpCopy | OpRm | OpExists | OpRead

record filesystem =
  files :: "string \<rightharpoonup> string"
  has_rename :: bool
  has_makedirs :: bool
  failing :: "fs_op \<Rightarrow> string \<Rightarrow> bool"
  breaks :: "fs_op \<Rightarrow> string \<Rightarrow> nat option"

definition fs_makedirs :: "filesystem \<Rightarrow> string \<Rightarrow> error + filesystem" where
  "fs_makedirs fs p = (if failing fs OpMakedirs p then Inl (BackendError p) else Inr fs)"

definition fs_open_write ::
  "filesystem \<Rightarrow> string \<Rightarrow> string \<Rightarrow> error \<times> filesystem + filesystem" where
  "fs_open_write fs p data =
     (if failing fs OpOpen p then Inl (BackendError p, fs)
      else case breaks fs OpOpen p of
             Some n \<Rightarrow> Inl (BackendError p, fs\<lparr>files := (files fs)(p \<mapsto> take n data)\<rparr>)
           | None \<Rightarrow> Inr (fs\<lparr>files := (files fs)(p \<mapsto> data)\<rparr>))"

definition fs_rename :: "filesystem \<Rightarrow> string \<Rightarrow> string \<Rightarrow> error + filesystem" where
  "fs_rename fs src dst =
     (if failing fs OpRename src then Inl (BackendError src)
      else case files fs src of
             None \<Rightarrow> Inl (BackendError src)
           | Some data \<Rightarrow> Inr (fs\<lparr>files := ((files fs)(src := None))(dst \<mapsto> data)\<rparr>))"

text \<open>
  \<^verbatim>\<open>fs.copy(src, dst)\<close> writes straight onto \<open>dst\<close>: a copy that raises midway has
  already replaced what \<open>dst\<close> held by the bytes copied so far.
\<close>

definition fs_copy ::
  "filesystem \<Rightarrow> string \<Rightarrow> string \<Rightarrow> error \<times> filesystem + filesystem" where
  "fs_copy fs src dst =
     (if failing fs OpCopy src then Inl (BackendError src, fs)
      else case files fs src of
             None \<Rightarrow> Inl (BackendError src, fs)
           | Some data \<Rightarrow>
               (case breaks fs OpCopy src of
                  Some n \<Rightarrow> Inl (BackendError src, fs\<lparr>files := (files fs)(dst \<mapsto> take n data)\<rparr>)
                | None \<Rightarrow> Inr (fs\<lparr>files := (files fs)(dst \<mapsto> data)\<rparr>)))"

definition fs_rm :: "filesystem \<Rightarrow> string \<Rightarrow> error + filesystem" where
  "fs_rm fs p =
     (if failing fs OpRm p \<or> files fs p = None then Inl (BackendError p)
      else Inr (fs\<lparr>files := (files fs)(p := None)\<rparr>))"

definition fs_exists :: "filesystem \<Rightarrow> string \<Rightarrow> error + bool" where
  "fs_exists fs p = (if failing fs OpExists p then Inl (BackendError p) else Inr (files fs p \<noteq> None))"

definition fs_read :: "filesystem \<Rightarrow> string \<Rightarrow> error + string" where
  "fs_read fs p =
     (if failing fs OpRead p then Inl (BackendError p)
      else case files fs p of None \<Rightarrow> Inl (BackendError p) | Some data \<Rightarrow> Inr data)"

text \<open>The path part of a uri (\<^verbatim>\<open>fsspec.core.url_to_fs\<close>): what follows \<^verbatim>\<open>://\<close>.\<close>

fun after_scheme :: "string \<Rightarrow> string option" where
  "after_scheme [] = None"
| "after_scheme (c # cs) =
     (if startswith (c # cs) ''://'' then Some (drop 2 cs) else after_scheme cs)"

definition url_path :: "string \<Rightarrow> string" where
  "url_path uri = (case after_scheme uri of None \<Rightarrow> uri | Some p \<Rightarrow> p)"

definition dirname :: "string \<Rightarrow> string" where
  "dirname p =
     (let hd_part = rev (dropWhile (\<lambda>c. c \<noteq> CHR ''/'') (rev p))
      in if hd_part \<noteq> [] \<and> \<not> list_all (\<lambda>c. c = CHR ''/'') hd_part then rstrip_slash hd_part
         else hd_part)"

subsection \<open>SnapshotStore: \<^verbatim>\<open>_atomic_write_json\<close> and \<^verbatim>\<open>persist_config_snapshot\<close>\<close>

text \<open>
  The state of the store is returned with the result, since a failed write can leave the
  temporary object behind. \<open>atomic_write_tmp\<close> is the function up to and including the
  write of \<^verbatim>\<open>uri + ".tmp"\<close>; \<open>copy_then_delete\<close> is the fallback after it.
\<close>

definition atomic_write_tmp ::
  "filesystem \<Rightarrow> json \<Rightarrow> string \<Rightarrow> error \<times> filesystem + filesystem" where
  "atomic_write_tmp fs obj uri =
     (let tmp = uri @ ''.tmp'';
          data = json_dumps_indent 0 obj;
          parent = dirname (url_path uri);
          fs0 = (if has_makedirs fs
                 then (case fs_makedirs fs parent of Inl _ \<Rightarrow> fs | Inr f \<Rightarrow> f)
                 else fs)
      in fs_open_write fs0 tmp data)"

definition copy_then_delete :: "filesystem \<Rightarrow> string \<Rightarrow> (error + string) \<times> filesystem" where
  "copy_then_delete fs uri =
     (let tmp = uri @ ''.tmp'' in
      case fs_copy fs tmp uri of
        Inl (_, fs1) \<Rightarrow> (Inl (RuntimeError (''Failed atomic write for '' @ uri)), fs1)
      | Inr fs1 \<Rightarrow>
          (case fs_rm fs1 tmp of
             Inl _ \<Rightarrow> (Inl (RuntimeError (''Failed atomic write for '' @ uri)), fs1)
           | Inr fs2 \<Rightarrow> (Inr uri, fs2)))"

definition atomic_write_json :: "filesystem \<Rightarrow> json \<Rightarrow> string \<Rightarrow> (error + string) \<times> filesystem" where
  "atomic_write_json fs obj uri =
     (case atomic_write_tmp fs obj uri of
        Inl (e, fs1) \<Rightarrow> (Inl e, fs1)
      | Inr fs1 \<Rightarrow>
          if has_rename fs1
          then (case fs_rename fs1 (uri @ ''.tmp'') uri of
                  Inr fs2 \<Rightarrow> (Inr uri, fs2)
                | Inl _ \<Rightarrow> copy_then_delete fs1 uri)
          else copy_then_delete fs1 uri)"

text \<open>
  \<^verbatim>\<open>persist_config_snapshot\<close>. \<open>now\<close> is the formatted clock reading
  \<^verbatim>\<open>time.strftime("%Y-%m-%dT%H:%M:%SZ", time.gmtime())\<close>.
\<close>

definition environ_keys :: "environ \<Rightarrow> string list" where
  "environ_keys env = dict_fromkeys (map fst env)"

definition redact_set :: "environ \<Rightarrow> string list option \<Rightarrow> string list" where
  "redact_set env redact_keys =
     (case redact_keys of
        None \<Rightarrow>
          filter (\<lambda>k. k \<noteq> [])
            (map strip (split_on CHR '',''
               (case map_of env ''REDACTED_ENV_KEYS'' of None \<Rightarrow> [] | Some v \<Rightarrow> v)))
      | Some ks \<Rightarrow> ks)"

definition env_snapshot :: "environ \<Rightarrow> string list option \<Rightarrow> (string \<times> string) list" where
  "env_snapshot env redact_keys =
     map (\<lambda>k. (k, if k \<in> set (redact_set env redact_keys) then ''<REDACTED>''
                  else (case map_of env k of None \<Rightarrow> [] | Some v \<Rightarrow> v)))
       (sort (environ_keys env))"

definition json_of_fingerprint :: "string option \<Rightarrow> json" where
  "json_of_fingerprint fp = (case fp of None \<Rightarrow> JNull | Some f \<Rightarrow> JStr f)"

definition snapshot_json ::
  "environ \<Rightarrow> string \<Rightarrow> (string \<times> pyval) list \<Rightarrow> string \<Rightarrow> string \<Rightarrow> string option
     \<Rightarrow> string list option \<Rightarrow> json" where
  "snapshot_json env now canonical_cfg full_hash run_id data_fingerprint redact_keys =
     JObj [(''canonical_config'', JObj (map (\<lambda>kv. (fst kv, json_of_pyval (snd kv))) canonical_cfg)),
           (''full_config_hash'', JStr full_hash),
           (''run_id'', JStr run_id),
           (''data_fingerprint'', json_of_fingerprint data_fingerprint),
           (''timestamp_utc'', JStr now),
           (''env'', JObj (map (\<lambda>kv. (fst kv, JStr (snd kv))) (env_snapshot env redact_keys)))]"

definition persist_config_snapshot ::
  "filesystem \<Rightarrow> environ \<Rightarrow> string \<Rightarrow> string \<Rightarrow> (string \<times> pyval) list \<Rightarrow> string \<Rightarrow> string
     \<Rightarrow> string option \<Rightarrow> string list option \<Rightarrow> (error + string) \<times> filesystem" where
  "persist_config_snapshot fs env now artifact_root canonical_cfg full_hash run_id
       data_fingerprint redact_keys =
     (let snapshot = snapshot_json env now canonical_cfg full_hash run_id data_fingerprint redact_keys;
          cfg_uri = rstrip_slash artifact_root @ ''/config_snapshot.json''
      in case atomic_write_json fs snapshot cfg_uri of
           (Inl e, fs1) \<Rightarrow> (Inl e, fs1)
         | (Inr _, fs1) \<Rightarrow> (Inr cfg_uri, fs1))"

definition fs_of :: "(string \<rightharpoonup> string) \<Rightarrow> filesystem" where
  "fs_of m = \<lparr>files = m, has_rename = True, has_makedirs = True, failing = (\<lambda>_ _. False),
              breaks = (\<lambda>_ _. None)\<rparr>"

text \<open>
  A store whose backend has no \<^verbatim>\<open>rename\<close>, and whose copy raises once \<open>n\<close> bytes are
  written (or completes, for \<open>None\<close>).
\<close>

definition fs_copy_only :: "(string \<rightharpoonup> string) \<Rightarrow> nat option \<Rightarrow> filesystem" where
  "fs_copy_only m n = \<lparr>files = m, has_rename = False, has_makedirs = True, failing = (\<lambda>_ _. False),
                       breaks = (\<lambda>op _. if op = OpCopy then n else None)\<rparr>"

definition env_example :: environ where
  "env_example = [(''PATH'', ''/usr/bin''), (''AWS_SECRET_ACCESS_KEY'', ''s3cr3t''),
                  (''DB_PASSWORD'', ''hunter2''), (''REDACTED_ENV_KEYS'', ''AWS_SECRET_ACCESS_KEY, X'')]"

text \<open>What the final uri holds if execution stops right after the temporary object is written.\<close>

definition final_after_tmp :: "filesystem \<Rightarrow> json \<Rightarrow> string \<Rightarrow> error + string option" where
  "final_after_tmp fs obj uri =
     (case atomic_write_tmp fs obj uri of Inl (e, _) \<Rightarrow> Inl e | Inr fs1 \<Rightarrow> Inr (files fs1 uri))"

definition snapshot_uri :: string where
  "snapshot_uri = ''runs/ab12/config_snapshot.json''"

text \<open>\<^verbatim>\<open>obj.get(key)\<close> on a JSON object.\<close>

definition json_field :: "json \<Rightarrow> string \<Rightarrow> json option" where
  "json_field j k = (case j of JObj kvs \<Rightarrow> map_of kvs k | _ \<Rightarrow> None)"

subsection \<open>Paths\<close>

text \<open>\<^verbatim>\<open>os.path.abspath\<close> on POSIX, with the working directory \<open>cwd\<close>.\<close>

fun norm_comps :: "string list \<Rightarrow> string list \<Rightarrow> string list" where
  "norm_comps acc [] = rev acc"
| "norm_comps acc (c # cs) =
     (if c = [] \<or> c = ''.'' then norm_comps acc cs
      else if c = ''..'' then norm_comps (tl acc) cs
      else norm_comps (c # acc) cs)"

definition normpath_abs :: "string \<Rightarrow> string" where
  "normpath_abs p =
     (if startswith p ''//'' \<and> \<not> startswith p ''///'' then ''//'' else ''/'')
       @ join ''/'' (norm_comps [] (split_on CHR ''/'' p))"

definition abspath :: "string \<Rightarrow> string \<Rightarrow> string" where
  "abspath cwd p =
     normpath_abs (if startswith p ''/'' then p
                   else if cwd = [] \<or> endswith cwd ''/'' then cwd @ p
                   else cwd @ ''/'' @ p)"

definition to_abs_file_uri :: "string \<Rightarrow> string \<Rightarrow> string" where
  "to_abs_file_uri cwd u =
     (if u = [] then u
      else if startswith u ''file://'' then ''file://'' @ abspath cwd (drop 7 u)
      else if startswith u ''/'' then ''file://'' @ abspath cwd u
      else u)"

subsection \<open>Base64\<close>

text \<open>
  \<^verbatim>\<open>base64.b64decode(v)\<close> on a string, as \<^verbatim>\<open>binascii.a2b_base64\<close> decodes without strict
  mode: characters outside the alphabet are skipped, decoding stops at a complete padding,
  and an incomplete final quad is an error. A string with a non-ASCII character is an error.
\<close>

definition b64_alphabet :: string where
  "b64_alphabet = ''ABCDEFGHIJKLMNOPQRSTUVWXYZabcdefghijklmnopqrstuvwxyz0123456789+/''"

fun index_of :: "'a \<Rightarrow> 'a list \<Rightarrow> nat option" where
  "index_of x [] = None"
| "index_of x (y # ys) = (if x = y then Some 0 else map_option Suc (index_of x ys))"

definition b64_val :: "char \<Rightarrow> nat option" where
  "b64_val c = index_of c b64_alphabet"

fun b64_loop :: "nat \<Rightarrow> nat \<Rightarrow> nat \<Rightarrow> string \<Rightarrow> string option" where
  "b64_loop quad_pos leftchar pads [] = (if quad_pos \<noteq> 0 then None else Some [])"
| "b64_loop quad_pos leftchar pads (c # cs) =
     (if c = CHR ''='' then
        (if quad_pos \<ge> 2 \<and> quad_pos + (pads + 1) \<ge> 4 then Some []
         else b64_loop quad_pos leftchar (if quad_pos \<ge> 2 then pads + 1 else pads) cs)
      else case b64_val c of
        None \<Rightarrow> b64_loop quad_pos leftchar pads cs
      | Some v \<Rightarrow>
          (if quad_pos = 0 then b64_loop 1 v 0 cs
           else if quad_pos = 1 then
             map_option ((#) (char_of (leftchar * 4 + v div 16))) (b64_loop 2 (v mod 16) 0 cs)
           else if quad_pos = 2 then
             map_option ((#) (char_of (leftchar * 16 + v div 4))) (b64_loop 3 (v mod 4) 0 cs)
           else map_option ((#) (char_of (leftchar * 64 + v))) (b64_loop 0 0 0 cs)))"

definition b64decode :: "string \<Rightarrow> string option" where
  "b64decode s = (if list_all (\<lambda>c. (of_char c :: nat) < 128) s then b64_loop 0 0 0 s else None)"

text \<open>\<^verbatim>\<open>base64.b64encode\<close>, the standard encoding with padding.\<close>

definition b64_char :: "nat \<Rightarrow> char" where
  "b64_char n = b64_alphabet ! (n mod 64)"

fun b64encode :: "string \<Rightarrow> string" where
  "b64encode [] = []"
| "b64encode [a] =
     (let x = (of_char a :: nat) in [b64_char (x div 4), b64_char (x mod 4 * 16), CHR ''='', CHR ''=''])"
| "b64encode [a, b] =
     (let x = (of_char a :: nat); y = (of_char b :: nat)
      in [b64_char (x div 4), b64_char (x mod 4 * 16 + y div 16), b64_char (y mod 16 * 4), CHR ''=''])"
| "b64encode (a # b # c # rest) =
     (let x = (of_char a :: nat); y = (of_char b :: nat); z = (of_char c :: nat)
      in [b64_char (x div 4), b64_char (x mod 4 * 16 + y div 16),
          b64_char (y mod 16 * 4 + z div 64), b64_char z] @ b64encode rest)"

subsection \<open>DataFingerprinter: content tokens\<close>

text \<open>
  File metadata as \<^verbatim>\<open>fs.info(p)\<close> returns it: a dict whose values are \<^verbatim>\<open>None\<close>, strings,
  bytes or integers. Bytes are valid UTF-8 and decode to themselves.
\<close>

datatype ival = INone | IStr string | IBytes string | IInt int

type_synonym info = "(string \<times> ival) list"

fun ival_truthy :: "ival \<Rightarrow> bool" where
  "ival_truthy INone = False"
| "ival_truthy (IStr s) = (s \<noteq> [])"
| "ival_truthy (IBytes s) = (s \<noteq> [])"
| "ival_truthy (IInt i) = (i \<noteq> 0)"

text \<open>
  \<^verbatim>\<open>str(v)\<close> after the source has decoded bytes, and \<^verbatim>\<open>str(v)\<close> as an f-string formats
  a value (bytes of printable characters other than quote and backslash).
\<close>

fun ival_str :: "ival \<Rightarrow> string" where
  "ival_str INone = ''None''"
| "ival_str (IStr s) = s"
| "ival_str (IBytes s) = s"
| "ival_str (IInt i) = str_int i"

fun ival_format :: "ival \<Rightarrow> string" where
  "ival_format (IBytes s) = ''b'' @ [CHR 0x27] @ s @ [CHR 0x27]"
| "ival_format v = ival_str v"

definition is_hex_char :: "char \<Rightarrow> bool" where
  "is_hex_char c =
     (let n = (of_char c :: nat)
      in (48 \<le> n \<and> n \<le> 57) \<or> (65 \<le> n \<and> n \<le> 70) \<or> (97 \<le> n \<and> n \<le> 102))"

definition is_hex32 :: "string \<Rightarrow> bool" where
  "is_hex32 s = (length s = 32 \<and> list_all is_hex_char s)"

text \<open>
  \<^verbatim>\<open>int(size)\<close> in the size branch: \<^verbatim>\<open>None\<close> when it raises. A string may carry white
  space around, a sign, and single underscores between digits.
\<close>

definition int_of_string :: "string \<Rightarrow> int option" where
  "int_of_string raw =
     (let s = strip raw;
          neg = (s \<noteq> [] \<and> hd s = CHR ''-'');
          body = (if s \<noteq> [] \<and> (hd s = CHR ''-'' \<or> hd s = CHR ''+'') then tl s else s);
          groups = split_on CHR ''_'' body
      in if list_all (\<lambda>g. g \<noteq> [] \<and> list_all is_digit g) groups \<and> length (concat groups) \<le> 4300
         then Some (if neg then - int (nat_of_digits (concat groups))
                    else int (nat_of_digits (concat groups)))
         else None)"

fun ival_int :: "ival \<Rightarrow> int option" where
  "ival_int INone = None"
| "ival_int (IStr s) = int_of_string s"
| "ival_int (IBytes s) = int_of_string s"
| "ival_int (IInt i) = Some i"

text \<open>\<^verbatim>\<open>a or b\<close> on metadata values.\<close>

definition ival_or :: "ival \<Rightarrow> ival \<Rightarrow> ival" where
  "ival_or a b = (if ival_truthy a then a else b)"

definition info_get :: "info \<Rightarrow> string \<Rightarrow> ival" where
  "info_get info k = (case map_of info k of None \<Rightarrow> INone | Some v \<Rightarrow> v)"

definition etag_keys :: "string list" where
  "etag_keys = [''ETag'', ''etag'', ''etag_md5'', ''md5'', ''md5Hash'', ''hash'', ''Hash'']"

text \<open>One turn of the loop over the keys: the token this key gives, if any.\<close>

definition etag_of_value :: "ival \<Rightarrow> string option" where
  "etag_of_value v0 =
     (if \<not> ival_truthy v0 then None
      else (let v = ival_str v0 in
            if is_hex32 v then Some (lower v)
            else (case b64decode v of
                    None \<Rightarrow> None
                  | Some b \<Rightarrow> if length b = 16 then Some (md5_hexdigest b) else None)))"

fun etag_loop :: "info \<Rightarrow> string list \<Rightarrow> string option" where
  "etag_loop info [] = None"
| "etag_loop info (key # keys) =
     (case etag_of_value (info_get info key) of
        Some t \<Rightarrow> Some t
      | None \<Rightarrow> etag_loop info keys)"

definition extract_etag_like :: "info \<Rightarrow> string option" where
  "extract_etag_like info =
     (case etag_loop info etag_keys of
        Some t \<Rightarrow> Some t
      | None \<Rightarrow>
          (let size = ival_or (info_get info ''size'')
                        (ival_or (info_get info ''Size'') (info_get info ''length''))
           in if size = INone then None
              else (case ival_int size of
                      Some n \<Rightarrow> Some (''size:'' @ str_int n)
                    | None \<Rightarrow> Some (''size:'' @ ival_format size))))"

subsection \<open>DataFingerprinter: \<^verbatim>\<open>compute_data_fingerprint\<close>\<close>

text \<open>
  The storage backend that holds the data root. Each operation is given the number of the
  attempt (of \<^verbatim>\<open>_retry\<close>) it is called in, so that a backend can fail in some attempts
  and answer in others. An entry of \<^verbatim>\<open>fs.ls(root, detail=True)\<close> is a dict with a
  non-empty \<^verbatim>\<open>name\<close> and a \<^verbatim>\<open>type\<close>. \<open>cwd\<close> is the working directory of the process.
\<close>

record ls_entry =
  ename :: string
  etype :: string

record data_backend =
  cwd :: string
  find_files :: "nat \<Rightarrow> string \<Rightarrow> error + string list"
  ls_detail :: "nat \<Rightarrow> string \<Rightarrow> error + ls_entry list"
  path_exists :: "nat \<Rightarrow> string \<Rightarrow> error + bool"
  file_info :: "nat \<Rightarrow> string \<Rightarrow> error + info"
  open_read :: "nat \<Rightarrow> string \<Rightarrow> error + string"

text \<open>
  \<^verbatim>\<open>_retry(fn, attempts)\<close>: \<open>fn i\<close> is the outcome of attempt \<open>i\<close>. The waiting between
  attempts is not modelled. With no attempt at all, \<^verbatim>\<open>raise last\<close> raises a
  \<^verbatim>\<open>TypeError\<close>.
\<close>

fun retry_loop :: "(nat \<Rightarrow> error + 'a) \<Rightarrow> nat \<Rightarrow> nat \<Rightarrow> error option \<Rightarrow> error + 'a" where
  "retry_loop fn i 0 last_error =
     (case last_error of
        None \<Rightarrow> Inl (TypeError ''exceptions must derive from BaseException'')
      | Some e \<Rightarrow> Inl e)"
| "retry_loop fn i (Suc n) last_error =
     (case fn i of Inr v \<Rightarrow> Inr v | Inl e \<Rightarrow> retry_loop fn (Suc i) n (Some e))"

definition retry :: "(nat \<Rightarrow> error + 'a) \<Rightarrow> nat \<Rightarrow> error + 'a" where
  "retry fn attempts = retry_loop fn 0 attempts None"

text \<open>\<^verbatim>\<open>sorted([p for p in files if not str(p).endswith("/")])\<close>.\<close>

definition keep_files :: "string list \<Rightarrow> string list" where
  "keep_files ps = sort (filter (\<lambda>p. \<not> endswith p ''/'') ps)"

text \<open>The loop over the entries of \<^verbatim>\<open>fs.ls\<close> in the first fallback of \<^verbatim>\<open>_list_files\<close>.\<close>

definition expand_entry :: "data_backend \<Rightarrow> nat \<Rightarrow> ls_entry \<Rightarrow> string list" where
  "expand_entry b i e =
     (if etype e = ''directory''
      then (case find_files b i (ename e) of Inr deeper \<Rightarrow> deeper | Inl _ \<Rightarrow> [])
      else [ename e])"

definition list_files :: "data_backend \<Rightarrow> string \<Rightarrow> nat \<Rightarrow> error + string list" where
  "list_files b root i =
     (case find_files b i root of
        Inr ps \<Rightarrow> Inr (keep_files ps)
      | Inl _ \<Rightarrow>
          (case ls_detail b i root of
             Inr entries \<Rightarrow> Inr (keep_files (concat (map (expand_entry b i) entries)))
           | Inl _ \<Rightarrow>
               (case path_exists b i root of
                  Inl e \<Rightarrow> Inl e
                | Inr True \<Rightarrow> Inr [root]
                | Inr False \<Rightarrow> Inr [])))"

text \<open>
  \<^verbatim>\<open>_stream_sha256_of_path\<close>: the file is read in chunks of \<open>chunk_size\<close> bytes, each fed
  to the hash object, which hashes what it was fed in order.
\<close>

definition stream_sha256_of_path ::
  "data_backend \<Rightarrow> nat \<Rightarrow> string \<Rightarrow> nat \<Rightarrow> error + string" where
  "stream_sha256_of_path b i path chunk_size =
     (case open_read b i path of
        Inl e \<Rightarrow> Inl e
      | Inr content \<Rightarrow> Inr (sha256_hexdigest (foldl (@) [] (chunks chunk_size content))))"

definition default_chunk_size :: nat where
  "default_chunk_size = 8 * 1024 * 1024"

text \<open>\<^verbatim>\<open>info.get('size', '')\<close> as the f-string formats it.\<close>

definition info_size_text :: "info \<Rightarrow> string" where
  "info_size_text info = (case map_of info ''size'' of None \<Rightarrow> [] | Some v \<Rightarrow> ival_format v)"

definition token_for_path :: "data_backend \<Rightarrow> bool \<Rightarrow> string \<Rightarrow> nat \<Rightarrow> error + string" where
  "token_for_path b prefer_etag p i =
     (let info = (case file_info b i p of Inl _ \<Rightarrow> [] | Inr d \<Rightarrow> d);
          token = (if prefer_etag
                   then (case extract_etag_like info of
                           None \<Rightarrow> None
                         | Some et \<Rightarrow>
                             if et = [] then None
                             else if startswith et ''size:'' then Some (p @ '':'' @ et)
                             else Some (p @ '':'' @ et @ '':'' @ info_size_text info))
                   else None)
      in case token of
           Some t \<Rightarrow> Inr t
         | None \<Rightarrow>
             (case stream_sha256_of_path b i p default_chunk_size of
                Inl e \<Rightarrow> Inl (RuntimeError (''Failed to tokenise file '' @ p @ '': '' @ error_text e))
              | Inr digest \<Rightarrow> Inr (p @ '':sha256:'' @ digest)))"

text \<open>The loop over the files: it stops at the first file whose token cannot be had.\<close>

fun tokens_for :: "data_backend \<Rightarrow> bool \<Rightarrow> nat \<Rightarrow> string list \<Rightarrow> error + string list" where
  "tokens_for b prefer_etag attempts [] = Inr []"
| "tokens_for b prefer_etag attempts (p # ps) =
     (case retry (token_for_path b prefer_etag p) attempts of
        Inl e \<Rightarrow> Inl e
      | Inr t \<Rightarrow>
          (case tokens_for b prefer_etag attempts ps of
             Inl e \<Rightarrow> Inl e
           | Inr ts \<Rightarrow> Inr (t # ts)))"

text \<open>
  \<open>data_tokens\<close> is \<^verbatim>\<open>compute_data_fingerprint\<close> up to the list \<^verbatim>\<open>tokens\<close>;
  the fingerprint is the hash of their concatenation.
\<close>

definition data_tokens :: "data_backend \<Rightarrow> string \<Rightarrow> bool \<Rightarrow> nat \<Rightarrow> error + string list" where
  "data_tokens b data_root prefer_etag attempts =
     (if data_root = [] then Inl (RuntimeError ''DATA_ROOT is required to compute data fingerprint'')
      else (let uri = to_abs_file_uri (cwd b) data_root;
                root = rstrip_slash (url_path uri)
            in case retry (list_files b root) attempts of
                 Inl e \<Rightarrow> Inl e
               | Inr fs \<Rightarrow>
                   if fs = [] then Inl (RuntimeError (''No files discovered under DATA_ROOT='' @ uri))
                   else tokens_for b prefer_etag attempts fs))"

definition compute_data_fingerprint ::
  "data_backend \<Rightarrow> string \<Rightarrow> bool \<Rightarrow> nat \<Rightarrow> error + string" where
  "compute_data_fingerprint b data_root prefer_etag attempts =
     (case data_tokens b data_root prefer_etag attempts of
        Inl e \<Rightarrow> Inl e
      | Inr tokens \<Rightarrow> Inr (sha256_hexdigest (join ''|'' tokens)))"

text \<open>
  A data root with two files, as a local directory gives it: listed in an order that is
  not sorted, with a size in the metadata and no ETag-like entry. \<open>a_content\<close> is the
  content of the first file.
\<close>

definition example_backend :: "string \<Rightarrow> data_backend" where
  "example_backend a_content =
     \<lparr>cwd = ''/work'',
      find_files = (\<lambda>i r. if r = ''/data'' then Inr [''/data/b.csv'', ''/data/a.csv''] else Inr []),
      ls_detail = (\<lambda>i r. Inl (BackendError r)),
      path_exists = (\<lambda>i r. Inr True),
      file_info = (\<lambda>i p. Inr [(''name'', IStr p),
                                (''size'', IInt (if p = ''/data/a.csv'' then int (length a_content) else 3)),
                                (''type'', IStr ''file'')]),
      open_read = (\<lambda>i p. if p = ''/data/a.csv'' then Inr a_content else Inr ''x,y'')\<rparr>"

definition find_sorted :: "nat \<Rightarrow> string \<Rightarrow> error + string list" where
  "find_sorted i r = (if r = ''/data'' then Inr [''/data/a.csv'', ''/data/b.csv''] else Inr [])"

definition find_with_empty_dir :: "nat \<Rightarrow> string \<Rightarrow> error + string list" where
  "find_with_empty_dir i r =
     (if r = ''/data'' then Inr [''/data/b.csv'', ''/data/empty/'', ''/data/a.csv''] else Inr [])"

text \<open>
  A data root whose recursive listing fails, so that \<^verbatim>\<open>fs.ls\<close> is used: a file and a
  directory holding a file, as a local directory gives them. \<open>made\<close> says whether the
  empty directory \<^verbatim>\<open>/data/empty\<close> has been created: before, it cannot be listed.
\<close>

definition fallback_backend :: "bool \<Rightarrow> data_backend" where
  "fallback_backend made =
     \<lparr>cwd = ''/work'',
      find_files = (\<lambda>i r. if r = ''/data/sub'' then Inr [''/data/sub/c.csv'']
                          else if r = ''/data/empty'' \<and> made then Inr []
                          else Inl (BackendError r)),
      ls_detail = (\<lambda>i r. if r = ''/data''
                          then Inr ([\<lparr>ename = ''/data/a.csv'', etype = ''file''\<rparr>]
                                    @ (if made then [\<lparr>ename = ''/data/empty'', etype = ''directory''\<rparr>]
                                       else [])
                                    @ [\<lparr>ename = ''/data/sub'', etype = ''directory''\<rparr>])
                          else if r = ''/data/empty'' \<and> made then Inr []
                          else Inl (BackendError r)),
      path_exists = (\<lambda>i r. Inr True),
      file_info = (\<lambda>i p. Inr [(''name'', IStr p), (''size'', IInt 3), (''type'', IStr ''file'')]),
      open_read = (\<lambda>i p. Inr ''x,y'')\<rparr>"

text \<open>The MD5 digest of the empty file, as 16 bytes.\<close>

definition md5_of_empty :: string where
  "md5_of_empty = [CHR 0xD4, CHR 0x1D, CHR 0x8C, CHR 0xD9, CHR 0x8F, CHR 0x00, CHR 0xB2, CHR 0x04,
                   CHR 0xE9, CHR 0x80, CHR 0x09, CHR 0x98, CHR 0xEC, CHR 0xF8, CHR 0x42, CHR 0x7E]"

subsection \<open>IdempotenceGate\<close>

text \<open>
  An object of the store is addressed by its uri: the path that
  \<^verbatim>\<open>fsspec.core.url_to_fs\<close> returns for a uri names the same object, so the operations are
  given the uri. Of the log, the warnings are kept: they report the failures that are
  swallowed.
\<close>

datatype log_entry = LogWarning string

datatype prior_run = NoPriorRun | ValidPriorRun

record snapshot_identity =
  snap_full_hash :: string
  snap_data_fingerprint :: "string option"

text \<open>
  Modelled from the spec: \<^verbatim>\<open>SnapshotStore.read\<close>, which the source does not contain.
  It fetches the object, parses it and validates its shape (section 6 of the spec: an
  object with \<^verbatim>\<open>canonical_config\<close> and \<^verbatim>\<open>env\<close> objects, the strings
  \<^verbatim>\<open>full_config_hash\<close>, \<^verbatim>\<open>run_id\<close> and \<^verbatim>\<open>timestamp_utc\<close>, and \<^verbatim>\<open>data_fingerprint\<close> a
  string or null); any failure is surfaced as absent. \<open>json_loads\<close> is the JSON parser of
  the library.
\<close>

definition is_json_object :: "json option \<Rightarrow> bool" where
  "is_json_object j = (case j of Some (JObj _) \<Rightarrow> True | _ \<Rightarrow> False)"

definition json_string_field :: "json \<Rightarrow> string \<Rightarrow> string option" where
  "json_string_field j k = (case json_field j k of Some (JStr s) \<Rightarrow> Some s | _ \<Rightarrow> None)"

definition snapshot_of_json :: "json \<Rightarrow> snapshot_identity option" where
  "snapshot_of_json j =
     (if is_json_object (json_field j ''canonical_config'') \<and> is_json_object (json_field j ''env'')
         \<and> json_string_field j ''run_id'' \<noteq> None \<and> json_string_field j ''timestamp_utc'' \<noteq> None
      then (case json_string_field j ''full_config_hash'' of
              None \<Rightarrow> None
            | Some h \<Rightarrow>
                (case json_field j ''data_fingerprint'' of
                   Some (JStr f) \<Rightarrow> Some \<lparr>snap_full_hash = h, snap_data_fingerprint = Some f\<rparr>
                 | Some JNull \<Rightarrow> Some \<lparr>snap_full_hash = h, snap_data_fingerprint = None\<rparr>
                 | _ \<Rightarrow> None))
      else None)"

definition read_snapshot ::
  "(string \<Rightarrow> json option) \<Rightarrow> filesystem \<Rightarrow> string \<Rightarrow> snapshot_identity option" where
  "read_snapshot json_loads fs uri =
     (case fs_read fs uri of
        Inl _ \<Rightarrow> None
      | Inr text \<Rightarrow> (case json_loads text of None \<Rightarrow> None | Some j \<Rightarrow> snapshot_of_json j))"

text \<open>
  Modelled from the spec: \<^verbatim>\<open>check_existing_run_and_validate\<close>, which
  \<^verbatim>\<open>idempotence_gate\<close> imports from \<^verbatim>\<open>config\<close> and \<^verbatim>\<open>config.py\<close> does not define.
  Section 4.5 of the spec: the success marker is read and, if it is present, the
  persisted snapshot at the artifact root; marker absent is \<open>NoPriorRun\<close>; marker present,
  snapshot readable and its pair of full hash and data fingerprint equal to the expected
  pair is \<open>ValidPriorRun\<close>; any read failure, missing snapshot or mismatch is \<open>NoPriorRun\<close>,
  and the anomaly is logged. The function returns whether a valid prior run exists and a
  status text, which for a valid prior run is \<^verbatim>\<open>valid cached run.\<close>; the spec fixes no
  text for the other outcomes, and the name of the state stands for it.
\<close>

definition marker_uri_of :: "string \<Rightarrow> string" where
  "marker_uri_of artifact_root = rstrip_slash artifact_root @ ''/success.marker''"

definition snapshot_uri_of :: "string \<Rightarrow> string" where
  "snapshot_uri_of artifact_root = rstrip_slash artifact_root @ ''/config_snapshot.json''"

definition prior_run_state ::
  "(string \<Rightarrow> json option) \<Rightarrow> filesystem \<Rightarrow> string \<Rightarrow> string \<Rightarrow> string
     \<Rightarrow> prior_run \<times> log_entry list" where
  "prior_run_state json_loads fs artifact_root expected_full_hash expected_data_fingerprint =
     (case fs_exists fs (marker_uri_of artifact_root) of
        Inl e \<Rightarrow> (NoPriorRun, [LogWarning (''could not read success.marker: '' @ error_text e)])
      | Inr False \<Rightarrow> (NoPriorRun, [])
      | Inr True \<Rightarrow>
          (case read_snapshot json_loads fs (snapshot_uri_of artifact_root) of
             None \<Rightarrow> (NoPriorRun, [LogWarning ''success.marker without a readable snapshot''])
           | Some s \<Rightarrow>
               if (snap_full_hash s, snap_data_fingerprint s)
                    = (expected_full_hash, Some expected_data_fingerprint)
               then (ValidPriorRun, [])
               else (NoPriorRun, [LogWarning ''snapshot does not match the expected identity''])))"

fun status_text :: "prior_run \<Rightarrow> string" where
  "status_text ValidPriorRun = ''valid cached run.''"
| "status_text NoPriorRun = ''NoPriorRun''"

definition check_existing_run_and_validate ::
  "(string \<Rightarrow> json option) \<Rightarrow> filesystem \<Rightarrow> string \<Rightarrow> string \<Rightarrow> string
     \<Rightarrow> (bool \<times> string) \<times> log_entry list" where
  "check_existing_run_and_validate json_loads fs artifact_root expected_full_hash
       expected_data_fingerprint =
     (case prior_run_state json_loads fs artifact_root expected_full_hash expected_data_fingerprint of
        (st, logs) \<Rightarrow> ((st = ValidPriorRun, status_text st), logs))"

text \<open>
  \<^verbatim>\<open>idempotence_gate\<close>. The absent \<^verbatim>\<open>check_existing_run_and_validate\<close> is the parameter
  \<open>check\<close>. The result carries the store as the gate leaves it and the warnings logged.
\<close>

record gate_result =
  early_exit :: bool
  reason :: "string option"

type_synonym run_check =
  "filesystem \<Rightarrow> string \<Rightarrow> string \<Rightarrow> string \<Rightarrow> (bool \<times> string) \<times> log_entry list"

definition remove_marker :: "filesystem \<Rightarrow> string \<Rightarrow> filesystem \<times> log_entry list" where
  "remove_marker fs artifact_root =
     (case fs_exists fs (marker_uri_of artifact_root) of
        Inl e \<Rightarrow> (fs, [LogWarning (''Could not remove success.marker: '' @ error_text e)])
      | Inr False \<Rightarrow> (fs, [])
      | Inr True \<Rightarrow>
          (case fs_rm fs (marker_uri_of artifact_root) of
             Inl e \<Rightarrow> (fs, [LogWarning (''Could not remove success.marker: '' @ error_text e)])
           | Inr fs1 \<Rightarrow> (fs1, [])))"

definition idempotence_gate ::
  "run_check \<Rightarrow> filesystem \<Rightarrow> string \<Rightarrow> string \<Rightarrow> string \<Rightarrow> bool
     \<Rightarrow> gate_result \<times> filesystem \<times> log_entry list" where
  "idempotence_gate check fs artifact_root expected_full_hash expected_data_fingerprint force_rerun =
     (case check fs artifact_root expected_full_hash expected_data_fingerprint of
        ((exists, status), logs) \<Rightarrow>
          if exists \<and> \<not> force_rerun
          then (\<lparr>early_exit = True, reason = Some status\<rparr>, fs, logs)
          else if exists \<and> force_rerun
          then (case remove_marker fs artifact_root of
                  (fs1, logs1) \<Rightarrow> (\<lparr>early_exit = False, reason = None\<rparr>, fs1, logs @ logs1))
          else (\<lparr>early_exit = False, reason = None\<rparr>, fs, logs))"

subsection \<open>The pipeline: \<^verbatim>\<open>bootstrap_and_hash\<close> and \<^verbatim>\<open>run_pipeline_local\<close>\<close>

text \<open>
  What the pipeline reads and changes: the process environment, the artifact store and
  the log.
\<close>

record world =
  w_environ :: environ
  w_fs :: filesystem
  w_log :: "log_entry list"

record boot =
  canonical_json :: string
  data_fingerprint :: string
  full_config_hash :: string
  run_id :: string
  artifact_root :: string

text \<open>\<^verbatim>\<open>os.environ[k] = v\<close>.\<close>

definition environ_set :: "environ \<Rightarrow> string \<Rightarrow> string \<Rightarrow> environ" where
  "environ_set env k v =
     (if k \<in> fst ` set env then map (\<lambda>kv. if fst kv = k then (k, v) else kv) env
      else env @ [(k, v)])"

text \<open>An attribute of the configuration that holds a string.\<close>

definition config_str :: "config \<Rightarrow> string \<Rightarrow> error + string" where
  "config_str cfg k = (case cfg k of Some (PStr s) \<Rightarrow> Inr s | _ \<Rightarrow> Inl (AttributeError k))"

definition absolute_uri :: "string \<Rightarrow> string \<Rightarrow> string" where
  "absolute_uri wd u = (if startswith u ''/'' then ''file://'' @ abspath wd u else u)"

text \<open>
  \<^verbatim>\<open>bootstrap_and_hash\<close>. The snapshot is given \<^verbatim>\<open>json.loads(canonical_json)\<close>: the
  canonical configuration, with its keys in the order of the canonical text.
\<close>

definition bootstrap_and_hash ::
  "((string \<times> pyval) list \<Rightarrow> error + config) \<Rightarrow> data_backend \<Rightarrow> string \<Rightarrow> world
     \<Rightarrow> (error + boot) \<times> world" where
  "bootstrap_and_hash parse_obj b now w =
     (case load_from_env parse_obj (w_environ w) None of
        Inl e \<Rightarrow> (Inl e, w)
      | Inr cfg0 \<Rightarrow>
     (case config_str cfg0 ''DATA_ROOT'' of
        Inl e \<Rightarrow> (Inl e, w)
      | Inr data_root0 \<Rightarrow>
     (case config_str cfg0 ''PIPELINE_ROOT_URI'' of
        Inl e \<Rightarrow> (Inl e, w)
      | Inr pipeline_root0 \<Rightarrow>
     (let data_root = absolute_uri (cwd b) data_root0;
          pipeline_root = absolute_uri (cwd b) pipeline_root0;
          cfg = cfg0(''DATA_ROOT'' \<mapsto> PStr data_root, ''PIPELINE_ROOT_URI'' \<mapsto> PStr pipeline_root)
      in case compute_data_fingerprint b data_root True 3 of
           Inl e \<Rightarrow> (Inl e, w)
         | Inr data_fp \<Rightarrow>
      (case canonical_json_and_hash (w_environ w) cfg (Some data_fp) of
           Inl e \<Rightarrow> (Inl e, w)
         | Inr (cj, full_hash, rid) \<Rightarrow>
      (case derive_artifact_root pipeline_root rid of
           Inl e \<Rightarrow> (Inl e, w)
         | Inr root \<Rightarrow>
      (case persist_config_snapshot (w_fs w) (w_environ w) now root
              (sort_key fst (build_canonical_config cfg)) full_hash rid (Some data_fp) None of
           (Inl e, fs1) \<Rightarrow> (Inl e, w\<lparr>w_fs := fs1\<rparr>)
         | (Inr _, fs1) \<Rightarrow>
             (Inr \<lparr>canonical_json = cj, data_fingerprint = data_fp, full_config_hash = full_hash,
                   run_id = rid, artifact_root = root\<rparr>,
              w\<lparr>w_fs := fs1,
                w_environ := environ_set (environ_set (environ_set (w_environ w)
                               ''FULL_CONFIG_HASH'' full_hash) ''RUN_ID'' rid) ''ARTIFACT_ROOT'' root\<rparr>))))))))"

text \<open>
  The end of \<^verbatim>\<open>run_pipeline_local\<close>: the success marker is written to a temporary
  object and renamed, or copied and the temporary object deleted when the backend has no
  \<^verbatim>\<open>rename\<close>; a failure is logged and swallowed.
\<close>

definition write_success_marker :: "filesystem \<Rightarrow> string \<Rightarrow> filesystem \<times> log_entry list" where
  "write_success_marker fs root =
     (let marker_uri = marker_uri_of root; tmp = marker_uri @ ''.tmp'' in
      case fs_open_write fs tmp [] of
        Inl (e, fs1) \<Rightarrow> (fs1, [LogWarning (''Could not create success.marker: '' @ error_text e)])
      | Inr fs1 \<Rightarrow>
          if has_rename fs1
          then (case fs_rename fs1 tmp marker_uri of
                  Inl e \<Rightarrow> (fs1, [LogWarning (''Could not create success.marker: '' @ error_text e)])
                | Inr fs2 \<Rightarrow> (fs2, []))
          else (case fs_copy fs1 tmp marker_uri of
                  Inl (e, fs2) \<Rightarrow> (fs2, [LogWarning (''Could not create success.marker: '' @ error_text e)])
                | Inr fs2 \<Rightarrow>
                    (case fs_rm fs2 tmp of
                       Inl e \<Rightarrow> (fs2, [LogWarning (''Could not create success.marker: '' @ error_text e)])
                     | Inr fs3 \<Rightarrow> (fs3, []))))"

text \<open>
  \<^verbatim>\<open>run_pipeline_local\<close> after the gate has let the run proceed. The stages
  (\<^verbatim>\<open>load_from_env\<close>, \<^verbatim>\<open>run_preprocessing\<close>, \<^verbatim>\<open>run_train_and_eval\<close>) are the parameter
  \<open>stages\<close>: they take the boot record and the world and return the model and its
  metadata, or raise.
\<close>

datatype 'r pipeline_result =
    EarlyExit string string "string option"
  | Completed string string 'r

definition make_tmp_dir :: "filesystem \<Rightarrow> string \<Rightarrow> log_entry list" where
  "make_tmp_dir fs root =
     (if has_makedirs fs
      then (case fs_makedirs fs (rstrip_slash root @ ''/.tmp'') of
              Inl _ \<Rightarrow> [LogWarning ''Could not create artifact .tmp directory; continuing'']
            | Inr _ \<Rightarrow> [])
      else [])"

definition run_stages ::
  "(boot \<Rightarrow> world \<Rightarrow> (error + 'r) \<times> world) \<Rightarrow> boot \<Rightarrow> world
     \<Rightarrow> (error + 'r pipeline_result) \<times> world" where
  "run_stages stages bt w =
     (let w1 = w\<lparr>w_log := w_log w @ make_tmp_dir (w_fs w) (artifact_root bt)\<rparr> in
      case stages bt w1 of
        (Inl e, w2) \<Rightarrow> (Inl e, w2)
      | (Inr r, w2) \<Rightarrow>
          (case write_success_marker (w_fs w2) (artifact_root bt) of
             (fs3, logs) \<Rightarrow>
               (Inr (Completed (run_id bt) (artifact_root bt) r),
                w2\<lparr>w_fs := fs3, w_log := w_log w2 @ logs\<rparr>)))"

definition force_rerun_of :: "environ \<Rightarrow> bool" where
  "force_rerun_of env =
     (lower (case map_of env ''FORCE_RERUN'' of None \<Rightarrow> ''false'' | Some v \<Rightarrow> v)
        \<in> set [''1'', ''true'', ''yes''])"

definition run_pipeline_local ::
  "run_check \<Rightarrow> ((string \<times> pyval) list \<Rightarrow> error + config) \<Rightarrow> data_backend \<Rightarrow> string
     \<Rightarrow> (boot \<Rightarrow> world \<Rightarrow> (error + 'r) \<times> world) \<Rightarrow> world
     \<Rightarrow> (error + 'r pipeline_result) \<times> world" where
  "run_pipeline_local check parse_obj b now stages w =
     (let force_rerun = force_rerun_of (w_environ w) in
      case bootstrap_and_hash parse_obj b now w of
        (Inl e, w1) \<Rightarrow> (Inl e, w1)
      | (Inr bt, w1) \<Rightarrow>
          (case idempotence_gate check (w_fs w1) (artifact_root bt) (full_config_hash bt)
                  (data_fingerprint bt) force_rerun of
             (gate, fs2, logs) \<Rightarrow>
               (let w2 = w1\<lparr>w_fs := fs2, w_log := w_log w1 @ logs\<rparr> in
                if early_exit gate
                then (Inr (EarlyExit (run_id bt) (artifact_root bt) (reason gate)), w2)
                else run_stages stages bt w2)))"

section \<open>Properties\<close>

subsection \<open>Run identity\<close>

text \<open>
  Claim C3. With the strict fingerprint flag on, \<^verbatim>\<open>compute_full_hash_and_run_id\<close> fails
  with a \<^verbatim>\<open>RuntimeError\<close> when the data fingerprint is \<^verbatim>\<open>None\<close> or empty, and otherwise
  returns the SHA-256 hex digest of \<^verbatim>\<open>canonical_json + "\n" + data_fingerprint\<close> with its
  first 12 characters as run id; with the flag off it hashes \<^verbatim>\<open>canonical_json\<close> alone.
  When the flag is not passed it is read from \<^verbatim>\<open>STRICT_DATA_FINGERPRINT\<close> in the
  environment.
\<close>

theorem compute_full_hash_and_run_id_strict:
  "(fp = None \<or> fp = Some [] \<longrightarrow>
      compute_full_hash_and_run_id env cj fp (Some True)
        = Inl (RuntimeError ''Data fingerprint required but not provided''))
   \<and> (d \<noteq> [] \<longrightarrow>
      compute_full_hash_and_run_id env cj (Some d) (Some True)
        = Inr (sha256_hexdigest (cj @ [CHR 0x0A] @ d), take 12 (sha256_hexdigest (cj @ [CHR 0x0A] @ d))))
   \<and> compute_full_hash_and_run_id env cj fp (Some False)
        = Inr (sha256_hexdigest cj, take 12 (sha256_hexdigest cj))
   \<and> compute_full_hash_and_run_id env cj fp None
        = compute_full_hash_and_run_id env cj fp (Some (strict_from_env env))"
  by (auto simp: compute_full_hash_and_run_id_def Let_def split: option.splits)

theorem compute_full_hash_and_run_id_strict_witness:
  "compute_full_hash_and_run_id [] ''{}'' None (Some True)
     = Inl (RuntimeError ''Data fingerprint required but not provided'')
   \<and> compute_full_hash_and_run_id [] ''{}'' (Some ''ab'') (Some True)
     = Inr (sha256_hexdigest (''{}'' @ [CHR 0x0A] @ ''ab''),
            take 12 (sha256_hexdigest (''{}'' @ [CHR 0x0A] @ ''ab'')))
   \<and> compute_full_hash_and_run_id [] ''{}'' None (Some False)
     = Inr (sha256_hexdigest ''{}'', take 12 (sha256_hexdigest ''{}''))"
  using compute_full_hash_and_run_id_strict [of None "[]" "''{}''" "''ab''"]
  by simp

subsection \<open>Canonical configuration\<close>

lemma build_canonical_config_cong:
  assumes "\<forall>k \<in> set IDENTITY_VARS. cfgA k = cfgB k"
  shows "build_canonical_config cfgA = build_canonical_config cfgB"
proof -
  have "List.map_filter (\<lambda>k. map_option (Pair k) (cfgA k)) ks
      = List.map_filter (\<lambda>k. map_option (Pair k) (cfgB k)) ks"
    if "\<forall>k \<in> set ks. cfgA k = cfgB k" for ks
    using that by (induction ks) (simp_all add: List.map_filter_simps split: option.splits)
  with assms show ?thesis by (simp add: build_canonical_config_def)
qed

lemma strict_in_identity: "''STRICT_DATA_FINGERPRINT'' \<in> set IDENTITY_VARS"
  by (simp add: IDENTITY_VARS_def)

lemma ray_platform_only:
  "''RAY_NUM_CPUS'' \<in> set PLATFORM_VARS \<and> ''RAY_NUM_CPUS'' \<notin> set IDENTITY_VARS"
  by (simp add: PLATFORM_VARS_def IDENTITY_VARS_def)

text \<open>
  Claim C7. Two configurations that agree on every field except platform-only ones (listed
  in \<^verbatim>\<open>PLATFORM_VARS\<close> and not in \<^verbatim>\<open>IDENTITY_VARS\<close>) have the same canonical
  configuration, and \<^verbatim>\<open>canonical_json_and_hash\<close> returns the same canonical JSON, full
  hash and run id (or the same error) for both.
\<close>

theorem platform_only_fields_do_not_perturb_identity:
  assumes "\<forall>k. \<not> (k \<in> set PLATFORM_VARS \<and> k \<notin> set IDENTITY_VARS) \<longrightarrow> cfgA k = cfgB k"
  shows "build_canonical_config cfgA = build_canonical_config cfgB
       \<and> canonical_json_and_hash env cfgA fp = canonical_json_and_hash env cfgB fp"
proof -
  from assms have agree: "\<forall>k \<in> set IDENTITY_VARS. cfgA k = cfgB k" by blast
  then have b: "build_canonical_config cfgA = build_canonical_config cfgB"
    by (rule build_canonical_config_cong)
  from agree strict_in_identity
  have s: "cfgA ''STRICT_DATA_FINGERPRINT'' = cfgB ''STRICT_DATA_FINGERPRINT''" by blast
  show ?thesis using b s by (simp add: canonical_json_and_hash_def)
qed

theorem platform_only_fields_do_not_perturb_identity_witness:
  "cfg_example 4 ''RAY_NUM_CPUS'' \<noteq> cfg_example 8 ''RAY_NUM_CPUS''
   \<and> canonical_json_and_hash [] (cfg_example 4) (Some ''ab'')
       = canonical_json_and_hash [] (cfg_example 8) (Some ''ab'')"
proof -
  have h: "\<forall>k. \<not> (k \<in> set PLATFORM_VARS \<and> k \<notin> set IDENTITY_VARS)
              \<longrightarrow> cfg_example 4 k = cfg_example 8 k"
    using ray_platform_only by (auto simp: cfg_example_def)
  have d: "cfg_example 4 ''RAY_NUM_CPUS'' \<noteq> cfg_example 8 ''RAY_NUM_CPUS''"
    by (simp add: cfg_example_def)
  from platform_only_fields_do_not_perturb_identity [OF h, of "[]" "Some ''ab''"] d
  show ?thesis by blast
qed

lemma norm_3123: "norm_scalar (Some ''3,1,2,3'') = PList [AStr ''1'', AStr ''2'', AStr ''3'']"
  by code_simp

lemma norm_123: "norm_scalar (Some ''1,2,3'') = PList [AStr ''1'', AStr ''2'', AStr ''3'']"
  by code_simp

lemma canonical_3123:
  "canonical_value (PList [AInt 3, AInt 1, AInt 2, AInt 3]) = PList [AStr ''1'', AStr ''2'', AStr ''3'']"
  by code_simp

lemma canonical_123:
  "canonical_value (PList [AInt 1, AInt 2, AInt 3]) = PList [AStr ''1'', AStr ''2'', AStr ''3'']"
  by code_simp

lemma build_canonical_config_upd:
  assumes "canonical_value v = canonical_value w"
  shows "build_canonical_config (cfg(F \<mapsto> v)) = build_canonical_config (cfg(F \<mapsto> w))"
proof -
  have "map (\<lambda>kv. (fst kv, canonical_value (snd kv)))
          (List.map_filter (\<lambda>k. map_option (Pair k) ((cfg(F \<mapsto> v)) k)) ks)
      = map (\<lambda>kv. (fst kv, canonical_value (snd kv)))
          (List.map_filter (\<lambda>k. map_option (Pair k) ((cfg(F \<mapsto> w)) k)) ks)" for ks
    using assms by (induction ks) (simp_all add: List.map_filter_simps split: option.splits)
  then show ?thesis by (simp add: build_canonical_config_def)
qed

lemma strict_from_env_cong:
  "map_of e1 ''STRICT_DATA_FINGERPRINT'' = map_of e2 ''STRICT_DATA_FINGERPRINT''
   \<Longrightarrow> strict_from_env e1 = strict_from_env e2"
  by (simp add: strict_from_env_def)

lemma canonical_json_and_hash_env_cong:
  "map_of e1 ''STRICT_DATA_FINGERPRINT'' = map_of e2 ''STRICT_DATA_FINGERPRINT''
   \<Longrightarrow> canonical_json_and_hash e1 cfg fp = canonical_json_and_hash e2 cfg fp"
proof -
  assume "map_of e1 ''STRICT_DATA_FINGERPRINT'' = map_of e2 ''STRICT_DATA_FINGERPRINT''"
  then have "strict_from_env e1 = strict_from_env e2" by (rule strict_from_env_cong)
  then have "compute_full_hash_and_run_id e1 cj fp inc = compute_full_hash_and_run_id e2 cj fp inc"
    for cj inc
    by (cases inc) (simp_all add: compute_full_hash_and_run_id_def)
  then show ?thesis by (simp add: canonical_json_and_hash_def Let_def split: option.splits)
qed

lemma load_from_env_cong:
  assumes "\<forall>k. norm_scalar (map_of e1 k) = norm_scalar (map_of e2 k)"
  shows "load_from_env parse_obj e1 None = load_from_env parse_obj e2 None"
  using assms by (simp add: load_from_env_def)

text \<open>
  Claim C9. \<^verbatim>\<open>_norm_scalar("3,1,2,3")\<close> is the sorted, deduplicated list
  \<^verbatim>\<open>["1","2","3"]\<close>, as is \<^verbatim>\<open>_norm_scalar("1,2,3")\<close>. Two environments that differ
  only in supplying \<^verbatim>\<open>"3,1,2,3"\<close> and \<^verbatim>\<open>"1,2,3"\<close> for a list-valued identity field
  load the same configuration and give the same canonical JSON, full hash and run id; so
  do two configurations that hold the lists \<^verbatim>\<open>[3,1,2,3]\<close> and \<^verbatim>\<open>[1,2,3]\<close> in that
  field.
\<close>

theorem list_canonicalization_example:
  "norm_scalar (Some ''3,1,2,3'') = PList [AStr ''1'', AStr ''2'', AStr ''3'']
   \<and> norm_scalar (Some ''1,2,3'') = PList [AStr ''1'', AStr ''2'', AStr ''3'']
   \<and> (F \<in> set [''LAG_PERIODS'', ''ROLLING_WINDOWS'', ''MODEL_LIST'']
        \<and> map_of e1 F = Some ''3,1,2,3'' \<and> map_of e2 F = Some ''1,2,3''
        \<and> (\<forall>k. k \<noteq> F \<longrightarrow> map_of e1 k = map_of e2 k)
      \<longrightarrow> (case load_from_env parse_obj e1 None of
             Inl e \<Rightarrow> Inl e | Inr cfg \<Rightarrow> canonical_json_and_hash e1 cfg fp)
        = (case load_from_env parse_obj e2 None of
             Inl e \<Rightarrow> Inl e | Inr cfg \<Rightarrow> canonical_json_and_hash e2 cfg fp))
   \<and> (F \<in> set [''LAG_PERIODS'', ''ROLLING_WINDOWS'', ''MODEL_LIST'']
      \<longrightarrow> canonical_json_and_hash env (cfg(F \<mapsto> PList [AInt 3, AInt 1, AInt 2, AInt 3])) fp
        = canonical_json_and_hash env (cfg(F \<mapsto> PList [AInt 1, AInt 2, AInt 3])) fp)"
proof (intro conjI impI)
  show "norm_scalar (Some ''3,1,2,3'') = PList [AStr ''1'', AStr ''2'', AStr ''3'']"
    by (rule norm_3123)
  show "norm_scalar (Some ''1,2,3'') = PList [AStr ''1'', AStr ''2'', AStr ''3'']"
    by (rule norm_123)
next
  assume a: "F \<in> set [''LAG_PERIODS'', ''ROLLING_WINDOWS'', ''MODEL_LIST'']
        \<and> map_of e1 F = Some ''3,1,2,3'' \<and> map_of e2 F = Some ''1,2,3''
        \<and> (\<forall>k. k \<noteq> F \<longrightarrow> map_of e1 k = map_of e2 k)"
  then have "F \<noteq> ''STRICT_DATA_FINGERPRINT''" by auto
  with a have s: "map_of e1 ''STRICT_DATA_FINGERPRINT'' = map_of e2 ''STRICT_DATA_FINGERPRINT''"
    by metis
  have "norm_scalar (map_of e1 k) = norm_scalar (map_of e2 k)" for k
    using a norm_3123 norm_123 by (cases "k = F") auto
  then have l: "load_from_env parse_obj e1 None = load_from_env parse_obj e2 None"
    by (simp add: load_from_env_cong)
  show "(case load_from_env parse_obj e1 None of
             Inl e \<Rightarrow> Inl e | Inr cfg \<Rightarrow> canonical_json_and_hash e1 cfg fp)
        = (case load_from_env parse_obj e2 None of
             Inl e \<Rightarrow> Inl e | Inr cfg \<Rightarrow> canonical_json_and_hash e2 cfg fp)"
    unfolding l using canonical_json_and_hash_env_cong [OF s]
    by (simp split: sum.splits)
next
  assume "F \<in> set [''LAG_PERIODS'', ''ROLLING_WINDOWS'', ''MODEL_LIST'']"
  then have ne: "F \<noteq> ''STRICT_DATA_FINGERPRINT''" by auto
  have b: "build_canonical_config (cfg(F \<mapsto> PList [AInt 3, AInt 1, AInt 2, AInt 3]))
         = build_canonical_config (cfg(F \<mapsto> PList [AInt 1, AInt 2, AInt 3]))"
    by (rule build_canonical_config_upd) (simp only: canonical_3123 canonical_123)
  show "canonical_json_and_hash env (cfg(F \<mapsto> PList [AInt 3, AInt 1, AInt 2, AInt 3])) fp
        = canonical_json_and_hash env (cfg(F \<mapsto> PList [AInt 1, AInt 2, AInt 3])) fp"
    using b ne by (simp add: canonical_json_and_hash_def)
qed

lemma env_ab:
  "map_of env_a ''MODEL_LIST'' = Some ''3,1,2,3'' \<and> map_of env_b ''MODEL_LIST'' = Some ''1,2,3''
   \<and> (\<forall>k. k \<noteq> ''MODEL_LIST'' \<longrightarrow> map_of env_a k = map_of env_b k)"
  by (simp add: env_a_def env_b_def)

theorem list_canonicalization_example_witness:
  "(case load_from_env parse_plain env_a None of
      Inl e \<Rightarrow> Inl e | Inr cfg \<Rightarrow> canonical_json_and_hash env_a cfg (Some ''ab''))
   = (case load_from_env parse_plain env_b None of
      Inl e \<Rightarrow> Inl e | Inr cfg \<Rightarrow> canonical_json_and_hash env_b cfg (Some ''ab''))
   \<and> canonical_json_and_hash [] ((cfg_example 4)(''LAG_PERIODS'' \<mapsto> PList [AInt 3, AInt 1, AInt 2, AInt 3])) (Some ''ab'')
     = canonical_json_and_hash [] ((cfg_example 4)(''LAG_PERIODS'' \<mapsto> PList [AInt 1, AInt 2, AInt 3])) (Some ''ab'')
   \<and> map_of env_a ''MODEL_LIST'' \<noteq> map_of env_b ''MODEL_LIST''"
proof -
  have d: "map_of env_a ''MODEL_LIST'' \<noteq> map_of env_b ''MODEL_LIST''"
    by (simp add: env_a_def env_b_def)
  from list_canonicalization_example
         [where F = "''MODEL_LIST''" and ?e1.0 = env_a and ?e2.0 = env_b
            and parse_obj = parse_plain and fp = "Some ''ab''"] env_ab
  have a: "(case load_from_env parse_plain env_a None of
      Inl e \<Rightarrow> Inl e | Inr cfg \<Rightarrow> canonical_json_and_hash env_a cfg (Some ''ab''))
   = (case load_from_env parse_plain env_b None of
      Inl e \<Rightarrow> Inl e | Inr cfg \<Rightarrow> canonical_json_and_hash env_b cfg (Some ''ab''))"
    by simp
  from list_canonicalization_example
         [where F = "''LAG_PERIODS''" and env = "[]" and cfg = "cfg_example 4"
            and fp = "Some ''ab''"]
  have b: "canonical_json_and_hash [] ((cfg_example 4)(''LAG_PERIODS'' \<mapsto> PList [AInt 3, AInt 1, AInt 2, AInt 3])) (Some ''ab'')
     = canonical_json_and_hash [] ((cfg_example 4)(''LAG_PERIODS'' \<mapsto> PList [AInt 1, AInt 2, AInt 3])) (Some ''ab'')"
    by simp
  from a b d show ?thesis by blast
qed

subsection \<open>Atomic snapshot write\<close>

lemma tmp_neq [simp]: "uri @ ''.tmp'' \<noteq> uri" "uri \<noteq> uri @ ''.tmp''"
  by simp_all

lemma atomic_write_tmp_Inr:
  assumes "atomic_write_tmp fs obj uri = Inr fs1"
  shows "files fs1 = (files fs)(uri @ ''.tmp'' \<mapsto> json_dumps_indent 0 obj)"
    and "has_rename fs1 = has_rename fs" and "failing fs1 = failing fs"
    and "breaks fs1 = breaks fs"
  using assms
  by (auto simp: atomic_write_tmp_def fs_open_write_def fs_makedirs_def Let_def
           split: if_splits sum.splits option.splits)

lemma atomic_write_tmp_Inl:
  assumes "atomic_write_tmp fs obj uri = Inl (e, fs1)"
  shows "files fs1 uri = files fs uri"
  using assms
  by (auto simp: atomic_write_tmp_def fs_open_write_def fs_makedirs_def Let_def
           split: if_splits sum.splits option.splits)

lemma atomic_write_tmp_healthy:
  assumes "\<not> failing fs OpOpen (uri @ ''.tmp'')" and "breaks fs OpOpen (uri @ ''.tmp'') = None"
  shows "atomic_write_tmp fs obj uri
           = Inr (fs\<lparr>files := (files fs)(uri @ ''.tmp'' \<mapsto> json_dumps_indent 0 obj)\<rparr>)"
  using assms
  by (auto simp: atomic_write_tmp_def fs_open_write_def fs_makedirs_def Let_def)

lemma copy_then_delete_cases:
  assumes "copy_then_delete fs uri = (r, fs')" and "files fs (uri @ ''.tmp'') = Some data"
  shows "(r = Inr uri \<and> files fs' = ((files fs)(uri \<mapsto> data))(uri @ ''.tmp'' := None))
       \<or> (r = Inl (RuntimeError (''Failed atomic write for '' @ uri))
           \<and> (files fs' = files fs \<or> files fs' = (files fs)(uri \<mapsto> data)
               \<or> (\<exists>n. breaks fs OpCopy (uri @ ''.tmp'') = Some n
                       \<and> files fs' = (files fs)(uri \<mapsto> take n data))))"
  using assms
  by (auto simp: copy_then_delete_def fs_copy_def fs_rm_def Let_def
           split: if_splits sum.splits option.splits)

lemma atomic_write_json_outcome:
  assumes w: "atomic_write_json fs obj uri = (r, fs')"
  shows "((has_rename fs \<and> \<not> failing fs OpRename (uri @ ''.tmp''))
            \<or> breaks fs OpCopy (uri @ ''.tmp'') = None \<longrightarrow>
          files fs' uri = files fs uri \<or> files fs' uri = Some (json_dumps_indent 0 obj))
       \<and> (r = Inr uri \<longrightarrow> files fs' uri = Some (json_dumps_indent 0 obj)
                          \<and> files fs' (uri @ ''.tmp'') = None)
       \<and> (\<forall>x. r = Inr x \<longrightarrow> x = uri)"
proof -
  let ?data = "json_dumps_indent 0 obj"
  show ?thesis
  proof (cases "atomic_write_tmp fs obj uri")
    case (Inl ef)
    obtain e f where ef: "ef = (e, f)" by (cases ef)
    from Inl ef w have "r = Inl e" "fs' = f" by (auto simp: atomic_write_json_def)
    moreover from Inl ef have "files f uri = files fs uri"
      by (simp add: atomic_write_tmp_Inl)
    ultimately show ?thesis by simp
  next
    case (Inr f1)
    note f1 = atomic_write_tmp_Inr [OF Inr]
    have tmp1: "files f1 (uri @ ''.tmp'') = Some ?data" by (simp add: f1(1))
    show ?thesis
    proof (cases "has_rename f1 \<and> (\<exists>f2. fs_rename f1 (uri @ ''.tmp'') uri = Inr f2)")
      case True
      then obtain f2 where r2: "fs_rename f1 (uri @ ''.tmp'') uri = Inr f2" by blast
      with True Inr w have "r = Inr uri" "fs' = f2" by (auto simp: atomic_write_json_def)
      moreover from r2 tmp1 have "files f2 = ((files f1)(uri @ ''.tmp'' := None))(uri \<mapsto> ?data)"
        by (auto simp: fs_rename_def split: if_splits option.splits)
      ultimately show ?thesis by simp
    next
      case False
      have "\<exists>f2. fs_rename f1 (uri @ ''.tmp'') uri = Inr f2"
        if "\<not> failing fs OpRename (uri @ ''.tmp'')"
        using that tmp1 by (simp add: fs_rename_def f1(3))
      with False have nr: "\<not> (has_rename fs \<and> \<not> failing fs OpRename (uri @ ''.tmp''))"
        by (auto simp: f1(2))
      from False Inr w have c: "copy_then_delete f1 uri = (r, fs')"
        by (auto simp: atomic_write_json_def split: sum.splits)
      from copy_then_delete_cases [OF c tmp1] nr show ?thesis
        by (auto simp: f1)
    qed
  qed
qed

text \<open>
  Claim C5, as amended. \<^verbatim>\<open>_atomic_write_json\<close> writes the indented JSON text to
  \<^verbatim>\<open>uri + ".tmp"\<close>; at that point, and also when that write raises (the error then
  propagates), the final uri holds exactly what it held before the call. If the backend
  has \<^verbatim>\<open>rename\<close> and it succeeds, the call returns the uri; if \<^verbatim>\<open>rename\<close> is missing or
  fails, the call is copy-then-delete of the temporary object, which raises
  \<^verbatim>\<open>RuntimeError("Failed atomic write for <uri>")\<close> when the copy or the delete fails.
  When the call returns, the final uri holds the complete text and the temporary object is
  gone. When the rename succeeds (it is atomic), or when the fallback copy does not raise
  midway, the final uri holds either what it held before or the complete text, whatever
  the outcome. Nothing is stated about the final uri after a copy that raises midway.
\<close>

theorem atomic_write_json_no_partial_final:
  "(atomic_write_tmp fs obj uri = Inr fs1 \<longrightarrow>
       files fs1 (uri @ ''.tmp'') = Some (json_dumps_indent 0 obj) \<and> files fs1 uri = files fs uri)
   \<and> (atomic_write_tmp fs obj uri = Inl (e, fs1) \<longrightarrow>
       atomic_write_json fs obj uri = (Inl e, fs1) \<and> files fs1 uri = files fs uri)
   \<and> (atomic_write_tmp fs obj uri = Inr fs1 \<and> has_rename fs1
        \<and> fs_rename fs1 (uri @ ''.tmp'') uri = Inr fs2 \<longrightarrow>
       atomic_write_json fs obj uri = (Inr uri, fs2))
   \<and> (atomic_write_tmp fs obj uri = Inr fs1
        \<and> (\<not> has_rename fs1 \<or> fs_rename fs1 (uri @ ''.tmp'') uri = Inl e) \<longrightarrow>
       atomic_write_json fs obj uri = copy_then_delete fs1 uri)
   \<and> (fs_copy fs1 (uri @ ''.tmp'') uri = Inl (e, fs2)
        \<or> (fs_copy fs1 (uri @ ''.tmp'') uri = Inr fs2 \<and> fs_rm fs2 (uri @ ''.tmp'') = Inl e) \<longrightarrow>
       fst (copy_then_delete fs1 uri) = Inl (RuntimeError (''Failed atomic write for '' @ uri)))
   \<and> (atomic_write_json fs obj uri = (r, fs') \<longrightarrow>
       (r = Inr uri \<longrightarrow> files fs' uri = Some (json_dumps_indent 0 obj)
                          \<and> files fs' (uri @ ''.tmp'') = None)
       \<and> ((has_rename fs \<and> \<not> failing fs OpRename (uri @ ''.tmp''))
             \<or> breaks fs OpCopy (uri @ ''.tmp'') = None \<longrightarrow>
           files fs' uri = files fs uri \<or> files fs' uri = Some (json_dumps_indent 0 obj)))"
proof (intro conjI impI)
  assume a: "atomic_write_tmp fs obj uri = Inr fs1"
  show "files fs1 (uri @ ''.tmp'') = Some (json_dumps_indent 0 obj)"
    by (simp add: atomic_write_tmp_Inr(1) [OF a])
  show "files fs1 uri = files fs uri"
    by (simp add: atomic_write_tmp_Inr(1) [OF a])
next
  assume a: "atomic_write_tmp fs obj uri = Inl (e, fs1)"
  then show "atomic_write_json fs obj uri = (Inl e, fs1)"
    by (simp add: atomic_write_json_def)
  from a show "files fs1 uri = files fs uri"
    by (rule atomic_write_tmp_Inl)
next
  assume "atomic_write_tmp fs obj uri = Inr fs1 \<and> has_rename fs1
        \<and> fs_rename fs1 (uri @ ''.tmp'') uri = Inr fs2"
  then show "atomic_write_json fs obj uri = (Inr uri, fs2)"
    by (simp add: atomic_write_json_def)
next
  assume "atomic_write_tmp fs obj uri = Inr fs1
        \<and> (\<not> has_rename fs1 \<or> fs_rename fs1 (uri @ ''.tmp'') uri = Inl e)"
  then show "atomic_write_json fs obj uri = copy_then_delete fs1 uri"
    by (auto simp: atomic_write_json_def)
next
  assume "fs_copy fs1 (uri @ ''.tmp'') uri = Inl (e, fs2)
        \<or> (fs_copy fs1 (uri @ ''.tmp'') uri = Inr fs2 \<and> fs_rm fs2 (uri @ ''.tmp'') = Inl e)"
  then show "fst (copy_then_delete fs1 uri) = Inl (RuntimeError (''Failed atomic write for '' @ uri))"
    by (auto simp: copy_then_delete_def)
next
  assume w: "atomic_write_json fs obj uri = (r, fs')"
  let ?data = "json_dumps_indent 0 obj"
  note main = atomic_write_json_outcome [OF w]
  from main show "r = Inr uri \<Longrightarrow> files fs' uri = Some ?data" by blast
  from main show "r = Inr uri \<Longrightarrow> files fs' (uri @ ''.tmp'') = None" by blast
  from main show "(has_rename fs \<and> \<not> failing fs OpRename (uri @ ''.tmp''))
             \<or> breaks fs OpCopy (uri @ ''.tmp'') = None \<Longrightarrow>
           files fs' uri = files fs uri \<or> files fs' uri = Some ?data" by blast
qed

lemma dumps_empty_obj: "json_dumps_indent 0 (JObj []) = ''{}''"
  by simp

lemma fs_of_simps:
  "files (fs_of m) = m" "has_rename (fs_of m)" "has_makedirs (fs_of m)"
  "\<not> failing (fs_of m) op p" "breaks (fs_of m) op p = None"
  by (simp_all add: fs_of_def)

lemma fs_of_upd: "(fs_of m)\<lparr>files := m'\<rparr> = fs_of m'"
  by (simp add: fs_of_def)

lemma fs_copy_only_simps:
  "files (fs_copy_only m n) = m" "\<not> has_rename (fs_copy_only m n)"
  "has_makedirs (fs_copy_only m n)" "\<not> failing (fs_copy_only m n) op p"
  "breaks (fs_copy_only m n) OpCopy p = n" "breaks (fs_copy_only m n) OpOpen p = None"
  by (simp_all add: fs_copy_only_def)

lemma fs_copy_only_upd: "(fs_copy_only m n)\<lparr>files := m'\<rparr> = fs_copy_only m' n"
  by (simp add: fs_copy_only_def)

lemma tmp_example:
  "atomic_write_tmp (fs_of [snapshot_uri \<mapsto> ''old'']) (JObj []) snapshot_uri
     = Inr (fs_of [snapshot_uri \<mapsto> ''old'', snapshot_uri @ ''.tmp'' \<mapsto> ''{}''])"
  by (simp add: atomic_write_tmp_def fs_makedirs_def fs_open_write_def fs_of_simps fs_of_upd Let_def)

lemma tmp_example_copy_only:
  "atomic_write_tmp (fs_copy_only [snapshot_uri \<mapsto> ''old''] n) (JObj []) snapshot_uri
     = Inr (fs_copy_only [snapshot_uri \<mapsto> ''old'', snapshot_uri @ ''.tmp'' \<mapsto> ''{}''] n)"
  by (simp add: atomic_write_tmp_def fs_makedirs_def fs_open_write_def fs_copy_only_simps
                fs_copy_only_upd Let_def)

lemma copy_example_broken:
  "copy_then_delete (fs_copy_only [snapshot_uri \<mapsto> ''old'', snapshot_uri @ ''.tmp'' \<mapsto> ''{}''] (Some 1))
      snapshot_uri
     = (Inl (RuntimeError (''Failed atomic write for '' @ snapshot_uri)),
        fs_copy_only [snapshot_uri \<mapsto> ''{'', snapshot_uri @ ''.tmp'' \<mapsto> ''{}''] (Some 1))"
proof -
  have "([snapshot_uri \<mapsto> ''old'', snapshot_uri @ ''.tmp'' \<mapsto> ''{}''])(snapshot_uri \<mapsto> ''{'')
        = [snapshot_uri \<mapsto> ''{'', snapshot_uri @ ''.tmp'' \<mapsto> ''{}'']"
    by (rule ext) simp
  then show ?thesis
    unfolding copy_then_delete_def Let_def
    by (simp add: fs_copy_def fs_copy_only_simps fs_copy_only_upd)
qed

lemma copy_example:
  "copy_then_delete (fs_copy_only [snapshot_uri \<mapsto> ''old'', snapshot_uri @ ''.tmp'' \<mapsto> ''{}''] None)
      snapshot_uri
     = (Inr snapshot_uri, fs_copy_only [snapshot_uri \<mapsto> ''{}''] None)"
proof -
  have "(([snapshot_uri \<mapsto> ''old'', snapshot_uri @ ''.tmp'' \<mapsto> ''{}''])(snapshot_uri \<mapsto> ''{}''))
            (snapshot_uri @ ''.tmp'' := None)
        = [snapshot_uri \<mapsto> ''{}'']"
    by (rule ext) simp
  then show ?thesis
    unfolding copy_then_delete_def Let_def
    by (simp add: fs_copy_def fs_rm_def fs_copy_only_simps fs_copy_only_upd)
qed

text \<open>
  Claim C5 as stated fails twice. When an earlier snapshot is at the final uri, it is
  still there after the temporary object is written and before the rename. And on a
  backend without \<^verbatim>\<open>rename\<close> whose copy raises after one byte, the call raises and leaves
  the one byte at the final uri, in place of the earlier snapshot.
\<close>

theorem atomic_write_final_exists_counterexample:
  "final_after_tmp (fs_of [snapshot_uri \<mapsto> ''old'']) (JObj []) snapshot_uri = Inr (Some ''old'')
   \<and> atomic_write_json (fs_copy_only [snapshot_uri \<mapsto> ''old''] (Some 1)) (JObj []) snapshot_uri
     = (Inl (RuntimeError (''Failed atomic write for '' @ snapshot_uri)),
        fs_copy_only [snapshot_uri \<mapsto> ''{'', snapshot_uri @ ''.tmp'' \<mapsto> ''{}''] (Some 1))
   \<and> json_dumps_indent 0 (JObj []) = ''{}''"
  by (simp add: final_after_tmp_def tmp_example fs_of_simps atomic_write_json_def
                tmp_example_copy_only fs_copy_only_simps copy_example_broken
           del: One_nat_def)

lemma rename_example:
  "fs_rename (fs_of [snapshot_uri \<mapsto> ''old'', snapshot_uri @ ''.tmp'' \<mapsto> ''{}''])
      (snapshot_uri @ ''.tmp'') snapshot_uri = Inr (fs_of [snapshot_uri \<mapsto> ''{}''])"
proof -
  have "(([snapshot_uri \<mapsto> ''old'', snapshot_uri @ ''.tmp'' \<mapsto> ''{}''])
            (snapshot_uri @ ''.tmp'' := None))(snapshot_uri \<mapsto> ''{}'')
        = [snapshot_uri \<mapsto> ''{}'']"
    by (rule ext) simp
  then show ?thesis
    by (simp add: fs_rename_def fs_of_simps fs_of_upd)
qed

theorem atomic_write_json_no_partial_final_witness:
  "atomic_write_tmp (fs_of [snapshot_uri \<mapsto> ''old'']) (JObj []) snapshot_uri
     = Inr (fs_of [snapshot_uri \<mapsto> ''old'', snapshot_uri @ ''.tmp'' \<mapsto> ''{}''])
   \<and> files (fs_of [snapshot_uri \<mapsto> ''old'', snapshot_uri @ ''.tmp'' \<mapsto> ''{}'']) snapshot_uri
     = Some ''old''
   \<and> atomic_write_json (fs_of [snapshot_uri \<mapsto> ''old'']) (JObj []) snapshot_uri
     = (Inr snapshot_uri, fs_of [snapshot_uri \<mapsto> ''{}''])
   \<and> atomic_write_json (fs_copy_only [snapshot_uri \<mapsto> ''old''] None) (JObj []) snapshot_uri
     = (Inr snapshot_uri, fs_copy_only [snapshot_uri \<mapsto> ''{}''] None)"
  using atomic_write_json_no_partial_final
          [of "fs_of [snapshot_uri \<mapsto> ''old'']" "JObj []" snapshot_uri
              "fs_of [snapshot_uri \<mapsto> ''old'', snapshot_uri @ ''.tmp'' \<mapsto> ''{}'']"
              _ "fs_of [snapshot_uri \<mapsto> ''{}'']"]
        atomic_write_json_no_partial_final
          [of "fs_copy_only [snapshot_uri \<mapsto> ''old''] None" "JObj []" snapshot_uri
              "fs_copy_only [snapshot_uri \<mapsto> ''old'', snapshot_uri @ ''.tmp'' \<mapsto> ''{}''] None"]
    tmp_example rename_example tmp_example_copy_only copy_example
  by (simp add: fs_of_simps fs_copy_only_simps)

subsection \<open>Persisted snapshot\<close>

lemma set_environ_keys: "set (environ_keys env) = fst ` set env"
  by (simp add: environ_keys_def dict_fromkeys_def)

lemma distinct_environ_keys: "distinct (environ_keys env)"
  by (simp add: environ_keys_def dict_fromkeys_def)

lemma map_of_tabulate:
  "map_of (map (\<lambda>k. (k, f k)) ks) k = (if k \<in> set ks then Some (f k) else None)"
  by (induction ks) auto

lemma env_snapshot_keys: "map fst (env_snapshot env rk) = sort (environ_keys env)"
  by (simp add: env_snapshot_def comp_def)

lemma env_snapshot_lookup:
  "map_of (env_snapshot env rk) k =
     (case map_of env k of
        None \<Rightarrow> None
      | Some v \<Rightarrow> Some (if k \<in> set (redact_set env rk) then ''<REDACTED>'' else v))"
proof (cases "map_of env k")
  case None
  then have "k \<notin> fst ` set env" by (simp add: map_of_eq_None_iff)
  then show ?thesis using None
    by (simp add: env_snapshot_def map_of_tabulate set_environ_keys)
next
  case (Some v)
  then have "k \<in> fst ` set env" by (metis map_of_eq_None_iff option.distinct(1))
  then show ?thesis using Some
    by (simp add: env_snapshot_def map_of_tabulate set_environ_keys)
qed

lemma redact_set_None:
  "set (redact_set env None) =
     {strip p | p. p \<in> set (split_on CHR '','' (case map_of env ''REDACTED_ENV_KEYS'' of None \<Rightarrow> [] | Some v \<Rightarrow> v))
                  \<and> strip p \<noteq> []}"
  by (auto simp: redact_set_def)

text \<open>Trimming a name of \<^verbatim>\<open>REDACTED_ENV_KEYS\<close> also removes white space beyond ASCII.\<close>

lemma redact_set_no_break_space:
  "redact_set [(''REDACTED_ENV_KEYS'', [CHR 0xC2, CHR 0xA0] @ ''S,'' @ [CHR 0xE2, CHR 0x80, CHR 0x83] @ '' T '' @ [CHR 0xC2, CHR 0x85])] None
     = [''S'', ''T'']"
  by code_simp

lemma persist_as_write:
  "persist_config_snapshot fs env now root ccfg h rid fp rk = (r, fs') \<longleftrightarrow>
     (\<exists>r0. atomic_write_json fs (snapshot_json env now ccfg h rid fp rk)
              (rstrip_slash root @ ''/config_snapshot.json'') = (r0, fs')
           \<and> r = (case r0 of Inl e \<Rightarrow> Inl e
                   | Inr _ \<Rightarrow> Inr (rstrip_slash root @ ''/config_snapshot.json'')))"
  by (auto simp: persist_config_snapshot_def Let_def split: prod.splits sum.splits)

lemma persist_written:
  assumes "persist_config_snapshot fs env now root ccfg h rid fp rk = (Inr u, fs')"
  shows "u = rstrip_slash root @ ''/config_snapshot.json''
       \<and> files fs' u = Some (json_dumps_indent 0 (snapshot_json env now ccfg h rid fp rk))"
proof -
  let ?uri = "rstrip_slash root @ ''/config_snapshot.json''"
  let ?snap = "snapshot_json env now ccfg h rid fp rk"
  obtain r f where w: "atomic_write_json fs ?snap ?uri = (r, f)" by force
  with assms have u: "u = ?uri" and f: "f = fs'" and r: "\<exists>x. r = Inr x"
    by (auto simp: persist_config_snapshot_def Let_def split: sum.splits)
  from atomic_write_json_outcome [OF w] r
  have "files f ?uri = Some (json_dumps_indent 0 ?snap)" by auto
  with u f show ?thesis by simp
qed

lemma atomic_write_json_healthy:
  assumes "\<not> failing fs OpOpen (uri @ ''.tmp'')" and "breaks fs OpOpen (uri @ ''.tmp'') = None"
    and "has_rename fs" and "\<not> failing fs OpRename (uri @ ''.tmp'')"
  shows "atomic_write_json fs obj uri
           = (Inr uri, fs\<lparr>files := ((files fs)(uri @ ''.tmp'' := None))(uri \<mapsto> json_dumps_indent 0 obj)\<rparr>)"
  using assms
  by (simp add: atomic_write_json_def atomic_write_tmp_healthy fs_rename_def)

lemma persist_healthy:
  assumes "\<not> failing fs OpOpen (rstrip_slash root @ ''/config_snapshot.json.tmp'')"
    and "breaks fs OpOpen (rstrip_slash root @ ''/config_snapshot.json.tmp'') = None"
    and "has_rename fs"
    and "\<not> failing fs OpRename (rstrip_slash root @ ''/config_snapshot.json.tmp'')"
  shows "persist_config_snapshot fs env now root ccfg h rid fp rk
           = (Inr (rstrip_slash root @ ''/config_snapshot.json''),
              fs\<lparr>files := ((files fs)(rstrip_slash root @ ''/config_snapshot.json.tmp'' := None))
                             (rstrip_slash root @ ''/config_snapshot.json''
                                \<mapsto> json_dumps_indent 0 (snapshot_json env now ccfg h rid fp rk))\<rparr>)"
proof -
  let ?uri = "rstrip_slash root @ ''/config_snapshot.json''"
  have t: "?uri @ ''.tmp'' = rstrip_slash root @ ''/config_snapshot.json.tmp''" by simp
  from assms show ?thesis
    unfolding persist_config_snapshot_def Let_def
    by (simp add: atomic_write_json_healthy [where uri = ?uri, unfolded t])
qed

text \<open>
  Claim C10. \<^verbatim>\<open>persist_config_snapshot\<close> hands the snapshot to \<^verbatim>\<open>_atomic_write_json\<close>
  for \<^verbatim>\<open><artifact_root>/config_snapshot.json\<close>: on a store where the write of the temporary
  object and the rename do not fail, the call returns that uri and the store holds there
  the indented JSON text of the snapshot; and whenever the call returns, the store holds
  that text there. With \<^verbatim>\<open>redact_keys\<close> omitted, the \<^verbatim>\<open>env\<close> object of that snapshot has
  exactly the variables of the process environment as keys, in sorted order; a variable
  named, after trimming, in the comma-separated \<^verbatim>\<open>REDACTED_ENV_KEYS\<close> variable maps to
  \<^verbatim>\<open><REDACTED>\<close>, and every other variable maps to its own value, secret or not.
\<close>

theorem persist_config_snapshot_env:
  "json_field (snapshot_json env now ccfg h rid fp None) ''env''
     = Some (JObj (map (\<lambda>kv. (fst kv, JStr (snd kv))) (env_snapshot env None)))
   \<and> (\<not> failing fs OpOpen (rstrip_slash root @ ''/config_snapshot.json.tmp'')
      \<and> breaks fs OpOpen (rstrip_slash root @ ''/config_snapshot.json.tmp'') = None
      \<and> has_rename fs
      \<and> \<not> failing fs OpRename (rstrip_slash root @ ''/config_snapshot.json.tmp'') \<longrightarrow>
        persist_config_snapshot fs env now root ccfg h rid fp None
          = (Inr (rstrip_slash root @ ''/config_snapshot.json''),
             fs\<lparr>files := ((files fs)(rstrip_slash root @ ''/config_snapshot.json.tmp'' := None))
                            (rstrip_slash root @ ''/config_snapshot.json''
                               \<mapsto> json_dumps_indent 0 (snapshot_json env now ccfg h rid fp None))\<rparr>))
   \<and> (persist_config_snapshot fs env now root ccfg h rid fp None = (Inr u, fs') \<longrightarrow>
        u = rstrip_slash root @ ''/config_snapshot.json''
        \<and> files fs' u = Some (json_dumps_indent 0 (snapshot_json env now ccfg h rid fp None)))
   \<and> snd (persist_config_snapshot fs env now root ccfg h rid fp None)
       = snd (atomic_write_json fs (snapshot_json env now ccfg h rid fp None)
                (rstrip_slash root @ ''/config_snapshot.json''))
   \<and> map fst (env_snapshot env None) = sort (environ_keys env)
   \<and> sorted (map fst (env_snapshot env None))
   \<and> distinct (map fst (env_snapshot env None))
   \<and> set (map fst (env_snapshot env None)) = fst ` set env
   \<and> (map_of env k = Some v \<longrightarrow>
        map_of (env_snapshot env None) k
          = Some (if k \<in> set (redact_set env None) then ''<REDACTED>'' else v))
   \<and> (k \<in> set (redact_set env None) \<longleftrightarrow>
        k \<noteq> [] \<and> (\<exists>p \<in> set (split_on CHR '',''
                         (case map_of env ''REDACTED_ENV_KEYS'' of None \<Rightarrow> [] | Some x \<Rightarrow> x)).
                     strip p = k))"
proof (intro conjI impI)
  show "json_field (snapshot_json env now ccfg h rid fp None) ''env''
     = Some (JObj (map (\<lambda>kv. (fst kv, JStr (snd kv))) (env_snapshot env None)))"
    by (simp add: json_field_def snapshot_json_def)
next
  assume "\<not> failing fs OpOpen (rstrip_slash root @ ''/config_snapshot.json.tmp'')
      \<and> breaks fs OpOpen (rstrip_slash root @ ''/config_snapshot.json.tmp'') = None
      \<and> has_rename fs
      \<and> \<not> failing fs OpRename (rstrip_slash root @ ''/config_snapshot.json.tmp'')"
  then show "persist_config_snapshot fs env now root ccfg h rid fp None
          = (Inr (rstrip_slash root @ ''/config_snapshot.json''),
             fs\<lparr>files := ((files fs)(rstrip_slash root @ ''/config_snapshot.json.tmp'' := None))
                            (rstrip_slash root @ ''/config_snapshot.json''
                               \<mapsto> json_dumps_indent 0 (snapshot_json env now ccfg h rid fp None))\<rparr>)"
    by (intro persist_healthy) blast+
next
  assume p: "persist_config_snapshot fs env now root ccfg h rid fp None = (Inr u, fs')"
  from persist_written [OF p]
  show "u = rstrip_slash root @ ''/config_snapshot.json''"
    and "files fs' u = Some (json_dumps_indent 0 (snapshot_json env now ccfg h rid fp None))"
    by blast+
next
  show "snd (persist_config_snapshot fs env now root ccfg h rid fp None)
       = snd (atomic_write_json fs (snapshot_json env now ccfg h rid fp None)
                (rstrip_slash root @ ''/config_snapshot.json''))"
    by (simp add: persist_config_snapshot_def Let_def split: prod.splits sum.splits)
next
  show k: "map fst (env_snapshot env None) = sort (environ_keys env)"
    by (rule env_snapshot_keys)
  show "sorted (map fst (env_snapshot env None))" by (simp add: k)
  show "distinct (map fst (env_snapshot env None))"
    by (simp add: k distinct_environ_keys)
  show "set (map fst (env_snapshot env None)) = fst ` set env"
    by (simp add: k set_environ_keys)
next
  assume "map_of env k = Some v"
  then show "map_of (env_snapshot env None) k
          = Some (if k \<in> set (redact_set env None) then ''<REDACTED>'' else v)"
    by (simp add: env_snapshot_lookup)
next
  show "k \<in> set (redact_set env None) \<longleftrightarrow>
        k \<noteq> [] \<and> (\<exists>p \<in> set (split_on CHR '',''
                         (case map_of env ''REDACTED_ENV_KEYS'' of None \<Rightarrow> [] | Some x \<Rightarrow> x)).
                     strip p = k)"
    by (auto simp: redact_set_def)
qed

lemma env_snapshot_example:
  "env_snapshot env_example None =
     [(''AWS_SECRET_ACCESS_KEY'', ''<REDACTED>''), (''DB_PASSWORD'', ''hunter2''),
      (''PATH'', ''/usr/bin''), (''REDACTED_ENV_KEYS'', ''AWS_SECRET_ACCESS_KEY, X'')]"
  by code_simp

lemma snapshot_text_example:
  "json_dumps_indent 0
     (snapshot_json env_example ''2026-01-01T00:00:00Z'' [(''SEED'', PInt 7)] ''h'' ''ab12''
        (Some ''fp'') None)
   = ''{\<newline>  \"canonical_config\": {\<newline>    \"SEED\": 7\<newline>  },\<newline>  \"data_fingerprint\": \"fp\",\<newline>  \"env\": {\<newline>    \"AWS_SECRET_ACCESS_KEY\": \"<REDACTED>\",\<newline>    \"DB_PASSWORD\": \"hunter2\",\<newline>    \"PATH\": \"/usr/bin\",\<newline>    \"REDACTED_ENV_KEYS\": \"AWS_SECRET_ACCESS_KEY, X\"\<newline>  },\<newline>  \"full_config_hash\": \"h\",\<newline>  \"run_id\": \"ab12\",\<newline>  \"timestamp_utc\": \"2026-01-01T00:00:00Z\"\<newline>}''"
  by code_simp

lemma snapshot_uri_example:
  "rstrip_slash ''runs/ab12/'' @ ''/config_snapshot.json'' = snapshot_uri"
  "rstrip_slash ''runs/ab12/'' @ ''/config_snapshot.json.tmp'' = snapshot_uri @ ''.tmp''"
  by (simp_all add: rstrip_slash_def snapshot_uri_def)

theorem persist_config_snapshot_env_witness:
  "persist_config_snapshot (fs_of Map.empty) env_example ''2026-01-01T00:00:00Z'' ''runs/ab12/''
       [(''SEED'', PInt 7)] ''h'' ''ab12'' (Some ''fp'') None
     = (Inr ''runs/ab12/config_snapshot.json'',
        fs_of [''runs/ab12/config_snapshot.json'' \<mapsto>
          ''{\<newline>  \"canonical_config\": {\<newline>    \"SEED\": 7\<newline>  },\<newline>  \"data_fingerprint\": \"fp\",\<newline>  \"env\": {\<newline>    \"AWS_SECRET_ACCESS_KEY\": \"<REDACTED>\",\<newline>    \"DB_PASSWORD\": \"hunter2\",\<newline>    \"PATH\": \"/usr/bin\",\<newline>    \"REDACTED_ENV_KEYS\": \"AWS_SECRET_ACCESS_KEY, X\"\<newline>  },\<newline>  \"full_config_hash\": \"h\",\<newline>  \"run_id\": \"ab12\",\<newline>  \"timestamp_utc\": \"2026-01-01T00:00:00Z\"\<newline>}''])
   \<and> map_of env_example ''DB_PASSWORD'' = Some ''hunter2''
   \<and> map_of (env_snapshot env_example None) ''DB_PASSWORD'' = Some ''hunter2''
   \<and> map_of env_example ''AWS_SECRET_ACCESS_KEY'' = Some ''s3cr3t''
   \<and> map_of (env_snapshot env_example None) ''AWS_SECRET_ACCESS_KEY'' = Some ''<REDACTED>''
   \<and> map fst (env_snapshot env_example None)
       = [''AWS_SECRET_ACCESS_KEY'', ''DB_PASSWORD'', ''PATH'', ''REDACTED_ENV_KEYS'']"
proof -
  let ?text = "json_dumps_indent 0 (snapshot_json env_example ''2026-01-01T00:00:00Z''
                 [(''SEED'', PInt 7)] ''h'' ''ab12'' (Some ''fp'') None)"
  have a: "map_of env_example ''DB_PASSWORD'' = Some ''hunter2''"
    and b: "map_of env_example ''AWS_SECRET_ACCESS_KEY'' = Some ''s3cr3t''"
    by (simp_all add: env_example_def)
  note inst = persist_config_snapshot_env
         [of env_example "''2026-01-01T00:00:00Z''" "[(''SEED'', PInt 7)]" "''h''" "''ab12''"
             "Some ''fp''" "fs_of Map.empty" "''runs/ab12/''" _ _ "''DB_PASSWORD''" "''hunter2''"]
  have "persist_config_snapshot (fs_of Map.empty) env_example ''2026-01-01T00:00:00Z'' ''runs/ab12/''
       [(''SEED'', PInt 7)] ''h'' ''ab12'' (Some ''fp'') None
     = (Inr (rstrip_slash ''runs/ab12/'' @ ''/config_snapshot.json''),
        (fs_of Map.empty)\<lparr>files := ((files (fs_of Map.empty))
              (rstrip_slash ''runs/ab12/'' @ ''/config_snapshot.json.tmp'' := None))
              (rstrip_slash ''runs/ab12/'' @ ''/config_snapshot.json'' \<mapsto> ?text)\<rparr>)"
    by (rule inst [THEN conjunct2, THEN conjunct1, THEN mp]) (simp only: fs_of_simps simp_thms)
  then have "persist_config_snapshot (fs_of Map.empty) env_example ''2026-01-01T00:00:00Z'' ''runs/ab12/''
       [(''SEED'', PInt 7)] ''h'' ''ab12'' (Some ''fp'') None
     = (Inr snapshot_uri, fs_of [snapshot_uri \<mapsto> ?text])"
    by (simp only: snapshot_uri_example fs_of_simps fs_of_upd empty_upd_none)
  then have d: "persist_config_snapshot (fs_of Map.empty) env_example ''2026-01-01T00:00:00Z'' ''runs/ab12/''
       [(''SEED'', PInt 7)] ''h'' ''ab12'' (Some ''fp'') None
     = (Inr ''runs/ab12/config_snapshot.json'',
        fs_of [''runs/ab12/config_snapshot.json'' \<mapsto>
          ''{\<newline>  \"canonical_config\": {\<newline>    \"SEED\": 7\<newline>  },\<newline>  \"data_fingerprint\": \"fp\",\<newline>  \"env\": {\<newline>    \"AWS_SECRET_ACCESS_KEY\": \"<REDACTED>\",\<newline>    \"DB_PASSWORD\": \"hunter2\",\<newline>    \"PATH\": \"/usr/bin\",\<newline>    \"REDACTED_ENV_KEYS\": \"AWS_SECRET_ACCESS_KEY, X\"\<newline>  },\<newline>  \"full_config_hash\": \"h\",\<newline>  \"run_id\": \"ab12\",\<newline>  \"timestamp_utc\": \"2026-01-01T00:00:00Z\"\<newline>}''])"
    by (simp only: snapshot_text_example snapshot_uri_def)
  have e1: "map_of (env_snapshot env_example None) ''DB_PASSWORD'' = Some ''hunter2''"
    and e2: "map_of (env_snapshot env_example None) ''AWS_SECRET_ACCESS_KEY'' = Some ''<REDACTED>''"
    and e3: "map fst (env_snapshot env_example None)
       = [''AWS_SECRET_ACCESS_KEY'', ''DB_PASSWORD'', ''PATH'', ''REDACTED_ENV_KEYS'']"
    by (simp_all add: env_snapshot_example)
  show ?thesis
    by (intro conjI) (rule d a b e1 e2 e3)+
qed

subsection \<open>Digests, chunks and joined tokens\<close>

lemma length_sha256_round: "length s = 8 \<Longrightarrow> length (sha256_round s kw) = 8"
proof -
  assume "length s = 8"
  then obtain a b c d e f g h where "s = [a, b, c, d, e, f, g, h]"
    by (auto simp: length_Suc_conv eval_nat_numeral)
  then show ?thesis by (cases kw) (simp add: Let_def)
qed

lemma length_foldl_sha256_round: "length s = 8 \<Longrightarrow> length (foldl sha256_round s kws) = 8"
  by (induction kws arbitrary: s) (simp_all add: length_sha256_round)

lemma length_sha256_compress: "length hs = 8 \<Longrightarrow> length (sha256_compress hs block) = 8"
  by (simp add: sha256_compress_def length_foldl_sha256_round)

lemma length_foldl_sha256_compress:
  "length hs = 8 \<Longrightarrow> length (foldl sha256_compress hs blocks) = 8"
  by (induction blocks arbitrary: hs) (simp_all add: length_sha256_compress)

lemma length_concat_const:
  "(\<And>x. x \<in> set xs \<Longrightarrow> length (f x) = n) \<Longrightarrow> length (concat (map f xs)) = n * length xs"
  by (induction xs) simp_all

lemma length_sha256_digest: "length (sha256_digest m) = 32"
proof -
  have "length (foldl sha256_compress sha256_H0 (chunks 64 (sha256_pad m))) = 8"
    by (rule length_foldl_sha256_compress) (simp add: sha256_H0_def)
  moreover have "length (be_bytes 4 w) = 4" for w :: u32
    by (simp add: be_bytes_def)
  ultimately show ?thesis
    by (simp add: sha256_digest_def length_concat_const [where n = 4])
qed

lemma length_hexlify: "length (hexlify bs) = 2 * length bs"
  by (simp add: hexlify_def hex_byte_def length_concat_const [where n = 2])

lemma length_sha256_hexdigest: "length (sha256_hexdigest m) = 64"
  by (simp add: sha256_hexdigest_def length_hexlify length_sha256_digest)

lemma is_hex_char_hex_digit: "is_hex_char (hex_digit n)"
proof -
  have a: "list_all is_hex_char ''0123456789abcdef''"
    by (simp add: is_hex_char_def)
  have "hex_digit n \<in> set ''0123456789abcdef''"
    unfolding hex_digit_def by (rule nth_mem) simp
  with a show ?thesis unfolding list_all_iff by blast
qed

lemma hex_hexlify: "list_all is_hex_char (hexlify bs)"
  by (induction bs) (simp_all add: hexlify_def hex_byte_def is_hex_char_hex_digit)

lemma concat_chunks: "0 < n \<Longrightarrow> concat (chunks n xs) = xs"
proof (induction n xs rule: chunks.induct)
  case (1 n)
  then show ?case by simp
next
  case (2 n x xs)
  then show ?case by simp
qed

lemma foldl_append_concat: "foldl (@) acc xss = acc @ concat xss"
  by (induction xss arbitrary: acc) simp_all

lemma stream_sha256_chunk_independent:
  "0 < n \<Longrightarrow> stream_sha256_of_path b i p n = map_sum id sha256_hexdigest (open_read b i p)"
  by (simp add: stream_sha256_of_path_def foldl_append_concat concat_chunks split: sum.splits)

lemma join_Cons: "join sep (x # xs) = (if xs = [] then x else x @ sep @ join sep xs)"
  by (cases xs) simp_all

lemma join_map_differs:
  assumes "p \<in> set xs" and "f p \<noteq> g p"
    and "\<And>x. length (f x) = length (g x)"
    and "\<And>x. x \<noteq> p \<Longrightarrow> f x = g x"
  shows "join sep (map f xs) \<noteq> join sep (map g xs)"
  using assms(1)
proof (induction xs)
  case Nil
  then show ?case by simp
next
  case (Cons x xs)
  show ?case
  proof (cases "x = p")
    case True
    have "length (f p) = length (g p)" by (rule assms(3))
    with assms(2) show ?thesis
      by (auto simp: join_Cons True)
  next
    case False
    with Cons have "p \<in> set xs" and ih: "join sep (map f xs) \<noteq> join sep (map g xs)" by auto
    then have "xs \<noteq> []" by auto
    with ih assms(4) [OF False] show ?thesis
      by (simp add: join_Cons)
  qed
qed

subsection \<open>Data fingerprint\<close>

lemma keep_files_cong:
  assumes "mset (filter (\<lambda>p. \<not> endswith p ''/'') xs) = mset (filter (\<lambda>p. \<not> endswith p ''/'') ys)"
  shows "keep_files xs = keep_files ys"
proof -
  have "sort A = sort B" if "mset A = mset B" for A B :: "string list"
    by (rule properties_for_sort) (simp_all add: that)
  with assms show ?thesis unfolding keep_files_def by blast
qed

lemma mset_filter_concat_map:
  "filter_mset P (mset (concat (map g es))) = (\<Sum>e\<in>#mset es. filter_mset P (mset (g e)))"
  by (induction es) simp_all

lemma mset_expand_perm:
  assumes "mset es = mset es'"
    and "\<And>e. filter_mset P (mset (g e)) = filter_mset P (mset (g' e))"
  shows "mset (filter P (concat (map g es))) = mset (filter P (concat (map g' es')))"
  by (simp add: mset_filter_concat_map assms)

lemma tokens_for_listing_update [simp]:
  "tokens_for (b\<lparr>find_files := f', ls_detail := l'\<rparr>) pe att ps = tokens_for b pe att ps"
proof -
  have "token_for_path (b\<lparr>find_files := f', ls_detail := l'\<rparr>) pe p = token_for_path b pe p" for p
    unfolding token_for_path_def stream_sha256_of_path_def by simp
  then show ?thesis by (induction ps) (simp_all split: sum.splits)
qed

lemma data_tokens_listing:
  assumes F: "\<And>i. rel_sum (\<lambda>_ _. True)
                 (\<lambda>xs ys. mset (filter (\<lambda>p. \<not> endswith p ''/'') xs)
                          = mset (filter (\<lambda>p. \<not> endswith p ''/'') ys))
                 (find_files b i r0) (f' i r0)"
    and L: "\<And>i. rel_sum (\<lambda>_ _. True)
                 (\<lambda>es es'. mset (filter (\<lambda>p. \<not> endswith p ''/'') (concat (map (expand_entry b i) es)))
                          = mset (filter (\<lambda>p. \<not> endswith p ''/'')
                               (concat (map (expand_entry (b\<lparr>find_files := f', ls_detail := l'\<rparr>) i) es'))))
                 (ls_detail b i r0) (l' i r0)"
    and r0: "r0 = rstrip_slash (url_path (to_abs_file_uri (cwd b) root))"
  shows "data_tokens (b\<lparr>find_files := f', ls_detail := l'\<rparr>) root pe att = data_tokens b root pe att"
proof -
  let ?b' = "b\<lparr>find_files := f', ls_detail := l'\<rparr>"
  have "list_files ?b' r0 i = list_files b r0 i" for i
  proof (cases "find_files b i r0")
    case (Inl e)
    with F [of i] obtain e' where f: "f' i r0 = Inl e'" by (cases "f' i r0") simp_all
    show ?thesis
    proof (cases "ls_detail b i r0")
      case (Inl e2)
      with L [of i] obtain e2' where "l' i r0 = Inl e2'" by (cases "l' i r0") simp_all
      with Inl \<open>find_files b i r0 = Inl e\<close> f show ?thesis
        by (simp add: list_files_def)
    next
      case (Inr es)
      with L [of i] obtain es' where l: "l' i r0 = Inr es'"
        and m: "mset (filter (\<lambda>p. \<not> endswith p ''/'') (concat (map (expand_entry b i) es)))
              = mset (filter (\<lambda>p. \<not> endswith p ''/'') (concat (map (expand_entry ?b' i) es')))"
        by (cases "l' i r0") simp_all
      from keep_files_cong [OF m] Inr l \<open>find_files b i r0 = Inl e\<close> f show ?thesis
        by (simp add: list_files_def)
    qed
  next
    case (Inr xs)
    with F [of i] obtain ys where f: "f' i r0 = Inr ys"
      and m: "mset (filter (\<lambda>p. \<not> endswith p ''/'') xs) = mset (filter (\<lambda>p. \<not> endswith p ''/'') ys)"
      by (cases "f' i r0") simp_all
    from keep_files_cong [OF m] Inr f show ?thesis
      by (simp add: list_files_def)
  qed
  then have "list_files ?b' r0 = list_files b r0" by (rule ext)
  then show ?thesis by (simp add: data_tokens_def Let_def r0 split: sum.splits)
qed

text \<open>
  Claim C6. If the backend returns the paths of a listing (\<^verbatim>\<open>fs.find\<close>, or the entries
  of \<^verbatim>\<open>fs.ls\<close> in the fallback) in another order, in every attempt and for every
  directory, and fails where it failed before, then \<^verbatim>\<open>compute_data_fingerprint\<close>
  returns the same result; a fingerprint it returns is 64 hexadecimal digits.
\<close>

theorem fingerprint_listing_order_independent:
  assumes "\<forall>i r. rel_sum (=) (\<lambda>xs ys. mset xs = mset ys) (find_files b i r) (f' i r)"
    and "\<forall>i r. rel_sum (=) (\<lambda>es es'. mset es = mset es') (ls_detail b i r) (l' i r)"
  shows "compute_data_fingerprint (b\<lparr>find_files := f', ls_detail := l'\<rparr>) data_root prefer_etag attempts
           = compute_data_fingerprint b data_root prefer_etag attempts
       \<and> (\<forall>h. compute_data_fingerprint b data_root prefer_etag attempts = Inr h
              \<longrightarrow> length h = 64 \<and> list_all is_hex_char h)"
proof -
  let ?nd = "\<lambda>p. \<not> endswith p ''/''"
  let ?b' = "b\<lparr>find_files := f', ls_detail := l'\<rparr>"
  let ?r0 = "rstrip_slash (url_path (to_abs_file_uri (cwd b) data_root))"
  have F: "rel_sum (\<lambda>_ _. True) (\<lambda>xs ys. mset (filter ?nd xs) = mset (filter ?nd ys))
             (find_files b i r) (f' i r)"
    for i r
    using assms(1) [rule_format, of i r]
    by (cases "find_files b i r"; cases "f' i r") simp_all
  have E: "filter_mset ?nd (mset (expand_entry b i e)) = filter_mset ?nd (mset (expand_entry ?b' i e))"
    for i e
    using F [of i "ename e"]
    by (cases "find_files b i (ename e)"; cases "f' i (ename e)") (simp_all add: expand_entry_def)
  have L: "rel_sum (\<lambda>_ _. True)
             (\<lambda>es es'. mset (filter ?nd (concat (map (expand_entry b i) es)))
                      = mset (filter ?nd (concat (map (expand_entry ?b' i) es'))))
             (ls_detail b i r) (l' i r)" for i r
    using assms(2) [rule_format, of i r] mset_expand_perm [OF _ E]
    by (cases "ls_detail b i r"; cases "l' i r") simp_all
  have "data_tokens ?b' data_root prefer_etag attempts = data_tokens b data_root prefer_etag attempts"
    by (rule data_tokens_listing [where ?r0.0 = ?r0, OF F L refl])
  then have eq: "compute_data_fingerprint ?b' data_root prefer_etag attempts
           = compute_data_fingerprint b data_root prefer_etag attempts"
    by (simp add: compute_data_fingerprint_def)
  have "length h = 64 \<and> list_all is_hex_char h"
    if "compute_data_fingerprint b data_root prefer_etag attempts = Inr h" for h
    using that
    by (auto simp: compute_data_fingerprint_def sha256_hexdigest_def hex_hexlify length_hexlify
               length_sha256_digest
             split: sum.splits)
  with eq show ?thesis by blast
qed


lemma example_listing:
  "retry (list_files (example_backend c) ''/data'') 3 = Inr [''/data/a.csv'', ''/data/b.csv'']"
  by code_simp

lemma example_root: "rstrip_slash (url_path (to_abs_file_uri ''/work'' ''/data'')) = ''/data''"
  by code_simp

lemma example_tokens_size:
  "data_tokens (example_backend ''abc'') ''/data'' True 3
     = Inr [''/data/a.csv:size:3'', ''/data/b.csv:size:3'']"
  by code_simp

lemma example_tokens_size_flipped:
  "data_tokens (example_backend ''abd'') ''/data'' True 3
     = Inr [''/data/a.csv:size:3'', ''/data/b.csv:size:3'']"
  by code_simp

theorem fingerprint_listing_order_independent_witness:
  "compute_data_fingerprint
      ((example_backend ''abc'')\<lparr>find_files := find_sorted,
                                  ls_detail := ls_detail (example_backend ''abc'')\<rparr>) ''/data'' True 3
     = compute_data_fingerprint (example_backend ''abc'') ''/data'' True 3
   \<and> compute_data_fingerprint (example_backend ''abc'') ''/data'' True 3
     = Inr (sha256_hexdigest ''/data/a.csv:size:3|/data/b.csv:size:3'')
   \<and> find_files (example_backend ''abc'') 0 ''/data'' \<noteq> find_sorted 0 ''/data''"
proof -
  have f: "\<forall>i r. rel_sum (=) (\<lambda>xs ys. mset xs = mset ys)
                   (find_files (example_backend ''abc'') i r) (find_sorted i r)"
    by (simp add: example_backend_def find_sorted_def)
  have l: "\<forall>i r. rel_sum (=) (\<lambda>es es'. mset es = mset es')
                   (ls_detail (example_backend ''abc'') i r) (ls_detail (example_backend ''abc'') i r)"
    by (simp add: example_backend_def)
  have d: "find_files (example_backend ''abc'') 0 ''/data'' \<noteq> find_sorted 0 ''/data''"
    by (simp add: example_backend_def find_sorted_def)
  have v: "compute_data_fingerprint (example_backend ''abc'') ''/data'' True 3
     = Inr (sha256_hexdigest ''/data/a.csv:size:3|/data/b.csv:size:3'')"
    by (simp add: compute_data_fingerprint_def example_tokens_size)
  from fingerprint_listing_order_independent [OF f l, of "''/data''" True 3] d v
  show ?thesis by blast
qed

lemma retry_zero: "retry fn 0 = Inl (TypeError ''exceptions must derive from BaseException'')"
  by (simp add: retry_def)

lemma retry_first: "0 < n \<Longrightarrow> fn 0 = Inr v \<Longrightarrow> retry fn n = Inr v"
  by (cases n) (simp_all add: retry_def)

lemma list_files_open_read_update [simp]:
  "list_files (b\<lparr>open_read := r'\<rparr>) = list_files b"
proof -
  have "expand_entry (b\<lparr>open_read := r'\<rparr>) = expand_entry b"
    by (rule ext)+ (simp add: expand_entry_def)
  then have "list_files (b\<lparr>open_read := r'\<rparr>) r i = list_files b r i" for r i
    by (simp add: list_files_def split: sum.splits bool.splits)
  then show ?thesis by (intro ext)
qed

lemma tokens_for_map:
  assumes "tokens_for b pe att fs = Inr ts"
  shows "ts = map (\<lambda>q. case retry (token_for_path b pe q) att of Inr t \<Rightarrow> t | Inl _ \<Rightarrow> []) fs
       \<and> (\<forall>q \<in> set fs. \<exists>t. retry (token_for_path b pe q) att = Inr t)"
  using assms
  by (induction fs arbitrary: ts) (auto split: sum.splits)

lemma tokens_for_Inr:
  assumes "\<forall>q \<in> set fs. retry (token_for_path b pe q) att = Inr (g q)"
  shows "tokens_for b pe att fs = Inr (map g fs)"
  using assms by (induction fs) simp_all

lemma token_streamed:
  assumes "\<not> pe \<or> extract_etag_like (case file_info b i p of Inl _ \<Rightarrow> [] | Inr d \<Rightarrow> d) = None"
    and "open_read b i p = Inr c"
  shows "token_for_path b pe p i = Inr (p @ '':sha256:'' @ sha256_hexdigest c)"
proof -
  have "stream_sha256_of_path b i p default_chunk_size = Inr (sha256_hexdigest c)"
    using assms(2) by (simp add: stream_sha256_chunk_independent default_chunk_size_def)
  with assms(1) show ?thesis
    by (auto simp: token_for_path_def Let_def)
qed

lemma token_other_file:
  "q \<noteq> p \<Longrightarrow>
   token_for_path (b\<lparr>open_read := (\<lambda>i x. if x = p then Inr c' else open_read b i x)\<rparr>) pe q
     = token_for_path b pe q"
  unfolding token_for_path_def stream_sha256_of_path_def by simp

lemma byte_flip_tokens:
  assumes rd: "\<forall>i. open_read b i p = Inr c"
    and st: "\<not> pe \<or> (\<forall>i. extract_etag_like (case file_info b i p of Inl _ \<Rightarrow> [] | Inr d \<Rightarrow> d) = None)"
    and ls: "retry (list_files b (rstrip_slash (url_path (to_abs_file_uri (cwd b) root)))) att = Inr fs"
    and mem: "p \<in> set fs"
    and tk: "data_tokens b root pe att = Inr ts"
  shows "\<exists>ts'. data_tokens (b\<lparr>open_read := (\<lambda>i x. if x = p then Inr c' else open_read b i x)\<rparr>)
                  root pe att = Inr ts'
             \<and> (sha256_hexdigest c' \<noteq> sha256_hexdigest c \<longrightarrow> join ''|'' ts' \<noteq> join ''|'' ts)"
proof -
  let ?b' = "b\<lparr>open_read := (\<lambda>i x. if x = p then Inr c' else open_read b i x)\<rparr>"
  let ?f = "\<lambda>q. case retry (token_for_path b pe q) att of Inr t \<Rightarrow> t | Inl _ \<Rightarrow> []"
  let ?g = "\<lambda>q. if q = p then p @ '':sha256:'' @ sha256_hexdigest c' else ?f q"
  from ls have att: "0 < att" by (cases att) (simp_all add: retry_zero)
  from tk ls have ne: "root \<noteq> []" "fs \<noteq> []" and t: "tokens_for b pe att fs = Inr ts"
    by (auto simp: data_tokens_def Let_def split: if_splits)
  note tm = tokens_for_map [OF t]
  have fp: "?f p = p @ '':sha256:'' @ sha256_hexdigest c"
  proof -
    have "token_for_path b pe p 0 = Inr (p @ '':sha256:'' @ sha256_hexdigest c)"
      by (rule token_streamed) (use rd st in auto)
    from retry_first [where fn = "token_for_path b pe p", OF att this] show ?thesis by simp
  qed
  have "retry (token_for_path ?b' pe q) att = Inr (?g q)" if "q \<in> set fs" for q
  proof (cases "q = p")
    case True
    have "token_for_path ?b' pe p 0 = Inr (p @ '':sha256:'' @ sha256_hexdigest c')"
      by (rule token_streamed) (use st in simp_all)
    from retry_first [where fn = "token_for_path ?b' pe p", OF att this] True show ?thesis by simp
  next
    case False
    from tm that obtain t where "retry (token_for_path b pe q) att = Inr t" by blast
    with False show ?thesis by (simp add: token_other_file)
  qed
  then have t': "tokens_for ?b' pe att fs = Inr (map ?g fs)"
    by (intro tokens_for_Inr) blast
  have d: "data_tokens ?b' root pe att = Inr (map ?g fs)"
    using ne ls t' by (simp add: data_tokens_def Let_def)
  have "join ''|'' (map ?g fs) \<noteq> join ''|'' (map ?f fs)"
    if "sha256_hexdigest c' \<noteq> sha256_hexdigest c"
  proof (rule join_map_differs [OF mem])
    show "?g p \<noteq> ?f p" using that fp by simp
    show "length (?g x) = length (?f x)" for x
      using fp by (simp add: length_sha256_hexdigest)
    show "x \<noteq> p \<Longrightarrow> ?g x = ?f x" for x by simp
  qed
  with d tm show ?thesis by auto
qed

lemma empty_directory_tokens:
  assumes F: "\<forall>i. rel_sum (\<lambda>_ _. True)
                 (\<lambda>xs ys. mset (filter (\<lambda>p. \<not> endswith p ''/'') ys)
                          = mset (filter (\<lambda>p. \<not> endswith p ''/'') xs))
                 (find_files b i r0) (f' i r0)"
    and L: "\<forall>i. rel_sum (\<lambda>_ _. True)
                 (\<lambda>es es'. \<exists>ds. mset es' = mset es + mset ds
                     \<and> list_all (\<lambda>d. etype d = ''directory''
                           \<and> (case f' i (ename d) of Inl _ \<Rightarrow> True
                               | Inr ps \<Rightarrow> list_all (\<lambda>p. endswith p ''/'') ps)) ds
                     \<and> list_all (\<lambda>e. filter (\<lambda>p. \<not> endswith p ''/'')
                                        (expand_entry (b\<lparr>find_files := f', ls_detail := l'\<rparr>) i e)
                                    = filter (\<lambda>p. \<not> endswith p ''/'') (expand_entry b i e)) es)
                 (ls_detail b i r0) (l' i r0)"
    and r0: "r0 = rstrip_slash (url_path (to_abs_file_uri (cwd b) root))"
  shows "data_tokens (b\<lparr>find_files := f', ls_detail := l'\<rparr>) root pe att = data_tokens b root pe att"
proof (rule data_tokens_listing [where ?r0.0 = r0])
  let ?nd = "\<lambda>p. \<not> endswith p ''/''"
  let ?b' = "b\<lparr>find_files := f', ls_detail := l'\<rparr>"
  show "r0 = rstrip_slash (url_path (to_abs_file_uri (cwd b) root))" by (rule r0)
  show "rel_sum (\<lambda>_ _. True) (\<lambda>xs ys. mset (filter ?nd xs) = mset (filter ?nd ys))
          (find_files b i r0) (f' i r0)"
    for i
    using F [rule_format, of i]
    by (cases "find_files b i r0"; cases "f' i r0") simp_all
  show "rel_sum (\<lambda>_ _. True)
          (\<lambda>es es'. mset (filter ?nd (concat (map (expand_entry b i) es)))
                   = mset (filter ?nd (concat (map (expand_entry ?b' i) es'))))
          (ls_detail b i r0) (l' i r0)" for i
  proof (cases "ls_detail b i r0")
    case (Inl e)
    with L [rule_format, of i] show ?thesis by (cases "l' i r0") simp_all
  next
    case (Inr es)
    with L [rule_format, of i] obtain es' ds where l: "l' i r0 = Inr es'"
      and m: "mset es' = mset es + mset ds"
      and d: "list_all (\<lambda>d. etype d = ''directory''
                           \<and> (case f' i (ename d) of Inl _ \<Rightarrow> True
                               | Inr ps \<Rightarrow> list_all (\<lambda>p. endswith p ''/'') ps)) ds"
      and o: "list_all (\<lambda>e. filter ?nd (expand_entry ?b' i e) = filter ?nd (expand_entry b i e)) es"
      by (cases "l' i r0") auto
    have z: "filter_mset ?nd (mset (expand_entry ?b' i e)) = {#}" if "e \<in> set ds" for e
    proof -
      from d that have t: "etype e = ''directory''"
        and c: "case f' i (ename e) of Inl _ \<Rightarrow> True | Inr ps \<Rightarrow> list_all (\<lambda>p. endswith p ''/'') ps"
        by (auto simp: list_all_iff)
      show ?thesis
      proof (cases "f' i (ename e)")
        case (Inl x)
        with t show ?thesis by (simp add: expand_entry_def)
      next
        case (Inr ps)
        with c t show ?thesis by (simp add: expand_entry_def list_all_iff)
      qed
    qed
    have E: "filter_mset ?nd (mset (expand_entry ?b' i e)) = filter_mset ?nd (mset (expand_entry b i e))"
      if "e \<in> set es" for e
    proof -
      from o that have "filter ?nd (expand_entry ?b' i e) = filter ?nd (expand_entry b i e)"
        by (simp add: list_all_iff)
      then have "mset (filter ?nd (expand_entry ?b' i e)) = mset (filter ?nd (expand_entry b i e))"
        by simp
      then show ?thesis by (simp only: mset_filter)
    qed
    have "(\<Sum>e\<in>#mset ds. filter_mset ?nd (mset (expand_entry ?b' i e))) = {#}"
      using z by (simp add: sum_mset_0_iff)
    moreover have "(\<Sum>e\<in>#mset es. filter_mset ?nd (mset (expand_entry ?b' i e)))
                 = (\<Sum>e\<in>#mset es. filter_mset ?nd (mset (expand_entry b i e)))"
      by (rule arg_cong [where f = sum_mset], rule image_mset_cong) (simp add: E)
    ultimately have "filter_mset ?nd (mset (concat (map (expand_entry b i) es)))
             = filter_mset ?nd (mset (concat (map (expand_entry ?b' i) es')))"
      by (simp add: mset_filter_concat_map m)
    with Inr l show ?thesis by simp
  qed
qed

lemma example_tokens_streamed:
  "data_tokens (example_backend ''abc'') ''/data'' False 3
     = Inr [''/data/a.csv:sha256:'' @ sha256_hexdigest ''abc'',
            ''/data/b.csv:sha256:'' @ sha256_hexdigest ''x,y'']"
proof -
  let ?b = "example_backend ''abc''"
  let ?g = "\<lambda>q. q @ '':sha256:'' @ sha256_hexdigest (if q = ''/data/a.csv'' then ''abc'' else ''x,y'')"
  have "retry (token_for_path ?b False q) 3 = Inr (?g q)" for q
  proof -
    have "token_for_path ?b False q 0 = Inr (?g q)"
      by (rule token_streamed) (simp_all add: example_backend_def)
    then show ?thesis by (rule retry_first [rotated]) simp
  qed
  then have "tokens_for ?b False 3 [''/data/a.csv'', ''/data/b.csv'']
           = Inr (map ?g [''/data/a.csv'', ''/data/b.csv''])"
    by (intro tokens_for_Inr) blast
  moreover have "cwd ?b = ''/work''" by (simp add: example_backend_def)
  ultimately show ?thesis
    by (simp add: data_tokens_def example_root example_listing)
qed

lemma length_md5_round: "length s = 4 \<Longrightarrow> length (md5_round ms s i) = 4"
proof -
  assume "length s = 4"
  then obtain a b c d where "s = [a, b, c, d]"
    by (auto simp: length_Suc_conv eval_nat_numeral)
  then show ?thesis by simp
qed

lemma length_foldl_md5_round: "length s = 4 \<Longrightarrow> length (foldl (md5_round ms) s is) = 4"
  by (induction "is" arbitrary: s) (simp_all add: length_md5_round)

lemma length_md5_compress: "length hs = 4 \<Longrightarrow> length (md5_compress hs block) = 4"
  by (simp add: md5_compress_def length_foldl_md5_round)

lemma length_foldl_md5_compress: "length hs = 4 \<Longrightarrow> length (foldl md5_compress hs blocks) = 4"
  by (induction blocks arbitrary: hs) (simp_all add: length_md5_compress)

lemma length_md5_hexdigest: "length (md5_hexdigest m) = 32"
proof -
  have "length (foldl md5_compress md5_H0 (chunks 64 (md5_pad m))) = 4"
    by (rule length_foldl_md5_compress) (simp add: md5_H0_def)
  moreover have "length (le_bytes 4 w) = 4" for w :: u32
    by (simp add: le_bytes_def be_bytes_def)
  ultimately have "length (md5_digest m) = 16"
    by (simp add: md5_digest_def length_concat_const [where n = 4])
  then show ?thesis by (simp add: md5_hexdigest_def length_hexlify)
qed

lemma etag_of_value_length: "etag_of_value v = Some t \<Longrightarrow> length t = 32"
  by (auto simp: etag_of_value_def Let_def is_hex32_def lower_def length_md5_hexdigest
           split: if_splits option.splits)

lemma etag_loop_length: "etag_loop info keys = Some t \<Longrightarrow> length t = 32"
  by (induction keys) (auto split: option.splits dest: etag_of_value_length)

lemma extract_etag_like_nonempty: "extract_etag_like info = Some et \<Longrightarrow> et \<noteq> []"
  by (auto simp: extract_etag_like_def Let_def split: option.splits if_splits dest: etag_loop_length)

lemma token_from_metadata:
  assumes "pe" and "\<forall>i. extract_etag_like (case file_info b i p of Inl _ \<Rightarrow> [] | Inr d \<Rightarrow> d) \<noteq> None"
  shows "token_for_path (b\<lparr>open_read := (\<lambda>i x. if x = p then Inr c' else open_read b i x)\<rparr>) pe p
       = token_for_path b pe p"
proof
  fix i
  let ?info = "case file_info b i p of Inl _ \<Rightarrow> [] | Inr d \<Rightarrow> d"
  from assms(2) obtain et where e: "extract_etag_like ?info = Some et" by fastforce
  have ne: "et \<noteq> []"
    using e by (rule extract_etag_like_nonempty)
  show "token_for_path (b\<lparr>open_read := (\<lambda>i x. if x = p then Inr c' else open_read b i x)\<rparr>) pe p i
       = token_for_path b pe p i"
    using assms(1) e ne by (simp add: token_for_path_def Let_def)
qed

lemma metadata_token_tokens:
  assumes "pe" and "\<forall>i. extract_etag_like (case file_info b i p of Inl _ \<Rightarrow> [] | Inr d \<Rightarrow> d) \<noteq> None"
  shows "data_tokens (b\<lparr>open_read := (\<lambda>i x. if x = p then Inr c' else open_read b i x)\<rparr>) root pe att
       = data_tokens b root pe att"
proof -
  let ?b' = "b\<lparr>open_read := (\<lambda>i x. if x = p then Inr c' else open_read b i x)\<rparr>"
  have "token_for_path ?b' pe q = token_for_path b pe q" for q
    using token_from_metadata [OF assms, of c'] token_other_file [of q p c' b pe]
    by (cases "q = p") auto
  then have "tokens_for ?b' pe att fs = tokens_for b pe att fs" for fs
    by (induction fs) (simp_all split: sum.splits)
  then show ?thesis by (simp add: data_tokens_def Let_def split: sum.splits)
qed

text \<open>
  Claim C2, as amended. Adding an empty directory leaves the result of
  \<^verbatim>\<open>compute_data_fingerprint\<close> unchanged: it is enough that, at the data root, \<^verbatim>\<open>fs.find\<close>
  returns the same files (paths that end in \<^verbatim>\<open>/\<close> apart) or fails as before, and \<^verbatim>\<open>fs.ls\<close>
  gains at most directory entries with no file below them, its other entries giving the
  files they gave, or fails as before; what the backend answers for any other path, the
  new directory included, is free. Replacing the content
  \<open>c\<close> of a listed file by \<open>c'\<close>, for instance by flipping one byte, changes the string
  that is hashed into the fingerprint when the token of the file is its streamed SHA-256
  digest (no ETag-like or size entry in its metadata, or \<^verbatim>\<open>prefer_etag\<close> off) and the
  digests of \<open>c\<close> and \<open>c'\<close> differ; the fingerprints then differ unless SHA-256 collides on
  the two hashed strings. When the token of the file is an ETag-like or size entry of its
  metadata, a change of content that leaves the metadata as it was leaves the fingerprint
  as it was.
\<close>

theorem fingerprint_content_sensitivity:
  "((\<forall>i. rel_sum (\<lambda>_ _. True)
             (\<lambda>xs ys. mset (filter (\<lambda>p. \<not> endswith p ''/'') ys)
                      = mset (filter (\<lambda>p. \<not> endswith p ''/'') xs))
             (find_files b i (rstrip_slash (url_path (to_abs_file_uri (cwd b) root))))
             (f' i (rstrip_slash (url_path (to_abs_file_uri (cwd b) root)))))
     \<and> (\<forall>i. rel_sum (\<lambda>_ _. True)
             (\<lambda>es es'. \<exists>ds. mset es' = mset es + mset ds
                 \<and> list_all (\<lambda>d. etype d = ''directory''
                       \<and> (case f' i (ename d) of Inl _ \<Rightarrow> True
                           | Inr ps \<Rightarrow> list_all (\<lambda>p. endswith p ''/'') ps)) ds
                 \<and> list_all (\<lambda>e. filter (\<lambda>p. \<not> endswith p ''/'')
                                    (expand_entry (b\<lparr>find_files := f', ls_detail := l'\<rparr>) i e)
                                = filter (\<lambda>p. \<not> endswith p ''/'') (expand_entry b i e)) es)
             (ls_detail b i (rstrip_slash (url_path (to_abs_file_uri (cwd b) root))))
             (l' i (rstrip_slash (url_path (to_abs_file_uri (cwd b) root)))))
     \<longrightarrow> compute_data_fingerprint (b\<lparr>find_files := f', ls_detail := l'\<rparr>) root pe att
           = compute_data_fingerprint b root pe att)
   \<and> ((\<forall>i. open_read b i p = Inr c)
       \<and> (\<not> pe \<or> (\<forall>i. extract_etag_like (case file_info b i p of Inl _ \<Rightarrow> [] | Inr d \<Rightarrow> d) = None))
       \<and> retry (list_files b (rstrip_slash (url_path (to_abs_file_uri (cwd b) root)))) att = Inr fs
       \<and> p \<in> set fs
       \<and> data_tokens b root pe att = Inr ts
     \<longrightarrow> (\<exists>ts'. data_tokens (b\<lparr>open_read := (\<lambda>i x. if x = p then Inr c' else open_read b i x)\<rparr>)
                    root pe att = Inr ts'
              \<and> compute_data_fingerprint b root pe att = Inr (sha256_hexdigest (join ''|'' ts))
              \<and> compute_data_fingerprint
                    (b\<lparr>open_read := (\<lambda>i x. if x = p then Inr c' else open_read b i x)\<rparr>) root pe att
                  = Inr (sha256_hexdigest (join ''|'' ts'))
              \<and> (sha256_hexdigest c' = sha256_hexdigest c \<or> join ''|'' ts' \<noteq> join ''|'' ts)))
   \<and> (pe \<and> (\<forall>i. extract_etag_like (case file_info b i p of Inl _ \<Rightarrow> [] | Inr d \<Rightarrow> d) \<noteq> None)
     \<longrightarrow> compute_data_fingerprint
            (b\<lparr>open_read := (\<lambda>i x. if x = p then Inr c' else open_read b i x)\<rparr>) root pe att
          = compute_data_fingerprint b root pe att)"
proof (intro conjI impI)
  let ?r0 = "rstrip_slash (url_path (to_abs_file_uri (cwd b) root))"
  assume "(\<forall>i. rel_sum (\<lambda>_ _. True)
             (\<lambda>xs ys. mset (filter (\<lambda>p. \<not> endswith p ''/'') ys)
                      = mset (filter (\<lambda>p. \<not> endswith p ''/'') xs))
             (find_files b i ?r0) (f' i ?r0))
     \<and> (\<forall>i. rel_sum (\<lambda>_ _. True)
             (\<lambda>es es'. \<exists>ds. mset es' = mset es + mset ds
                 \<and> list_all (\<lambda>d. etype d = ''directory''
                       \<and> (case f' i (ename d) of Inl _ \<Rightarrow> True
                           | Inr ps \<Rightarrow> list_all (\<lambda>p. endswith p ''/'') ps)) ds
                 \<and> list_all (\<lambda>e. filter (\<lambda>p. \<not> endswith p ''/'')
                                    (expand_entry (b\<lparr>find_files := f', ls_detail := l'\<rparr>) i e)
                                = filter (\<lambda>p. \<not> endswith p ''/'') (expand_entry b i e)) es)
             (ls_detail b i ?r0) (l' i ?r0))"
  then have "data_tokens (b\<lparr>find_files := f', ls_detail := l'\<rparr>) root pe att = data_tokens b root pe att"
    by (intro empty_directory_tokens [where ?r0.0 = ?r0] refl) blast+
  then show "compute_data_fingerprint (b\<lparr>find_files := f', ls_detail := l'\<rparr>) root pe att
           = compute_data_fingerprint b root pe att"
    by (simp add: compute_data_fingerprint_def)
next
  let ?b' = "b\<lparr>open_read := (\<lambda>i x. if x = p then Inr c' else open_read b i x)\<rparr>"
  assume a: "(\<forall>i. open_read b i p = Inr c)
       \<and> (\<not> pe \<or> (\<forall>i. extract_etag_like (case file_info b i p of Inl _ \<Rightarrow> [] | Inr d \<Rightarrow> d) = None))
       \<and> retry (list_files b (rstrip_slash (url_path (to_abs_file_uri (cwd b) root)))) att = Inr fs
       \<and> p \<in> set fs
       \<and> data_tokens b root pe att = Inr ts"
  then have "\<exists>ts'. data_tokens ?b' root pe att = Inr ts'
             \<and> (sha256_hexdigest c' \<noteq> sha256_hexdigest c \<longrightarrow> join ''|'' ts' \<noteq> join ''|'' ts)"
    by (intro byte_flip_tokens) blast+
  then obtain ts' where t': "data_tokens ?b' root pe att = Inr ts'"
    and j: "sha256_hexdigest c' = sha256_hexdigest c \<or> join ''|'' ts' \<noteq> join ''|'' ts"
    by blast
  from a have t: "data_tokens b root pe att = Inr ts" by blast
  show "\<exists>ts'. data_tokens ?b' root pe att = Inr ts'
              \<and> compute_data_fingerprint b root pe att = Inr (sha256_hexdigest (join ''|'' ts))
              \<and> compute_data_fingerprint ?b' root pe att = Inr (sha256_hexdigest (join ''|'' ts'))
              \<and> (sha256_hexdigest c' = sha256_hexdigest c \<or> join ''|'' ts' \<noteq> join ''|'' ts)"
    using t t' j by (auto simp: compute_data_fingerprint_def)
next
  assume "pe \<and> (\<forall>i. extract_etag_like (case file_info b i p of Inl _ \<Rightarrow> [] | Inr d \<Rightarrow> d) \<noteq> None)"
  then have "data_tokens (b\<lparr>open_read := (\<lambda>i x. if x = p then Inr c' else open_read b i x)\<rparr>)
               root pe att = data_tokens b root pe att"
    by (intro metadata_token_tokens) blast+
  then show "compute_data_fingerprint
            (b\<lparr>open_read := (\<lambda>i x. if x = p then Inr c' else open_read b i x)\<rparr>) root pe att
          = compute_data_fingerprint b root pe att"
    by (simp add: compute_data_fingerprint_def)
qed

lemma fallback_root:
  "rstrip_slash (url_path (to_abs_file_uri (cwd (fallback_backend made)) ''/data'')) = ''/data''"
proof -
  have "cwd (fallback_backend made) = ''/work''" by (simp add: fallback_backend_def)
  then show ?thesis by (simp only: example_root)
qed

lemma fallback_made:
  "(fallback_backend False)\<lparr>find_files := find_files (fallback_backend True),
                             ls_detail := ls_detail (fallback_backend True)\<rparr> = fallback_backend True"
  by (simp add: fallback_backend_def)

lemma fallback_tokens:
  "data_tokens (fallback_backend False) ''/data'' True 3
     = Inr [''/data/a.csv:size:3'', ''/data/sub/c.csv:size:3'']"
  by code_simp

theorem fingerprint_content_sensitivity_witness:
  "compute_data_fingerprint
      ((example_backend ''abc'')\<lparr>find_files := find_with_empty_dir,
                                  ls_detail := ls_detail (example_backend ''abc'')\<rparr>) ''/data'' True 3
     = compute_data_fingerprint (example_backend ''abc'') ''/data'' True 3
   \<and> find_with_empty_dir 0 ''/data'' = Inr [''/data/b.csv'', ''/data/empty/'', ''/data/a.csv'']
   \<and> compute_data_fingerprint (fallback_backend True) ''/data'' True 3
     = compute_data_fingerprint (fallback_backend False) ''/data'' True 3
   \<and> compute_data_fingerprint (fallback_backend False) ''/data'' True 3
     = Inr (sha256_hexdigest ''/data/a.csv:size:3|/data/sub/c.csv:size:3'')
   \<and> ls_detail (fallback_backend False) 0 ''/data/empty'' = Inl (BackendError ''/data/empty'')
   \<and> ls_detail (fallback_backend True) 0 ''/data/empty'' = Inr []
   \<and> find_files (fallback_backend False) 0 ''/data/empty'' = Inl (BackendError ''/data/empty'')
   \<and> find_files (fallback_backend True) 0 ''/data/empty'' = Inr []
   \<and> (\<exists>ts'. data_tokens
               ((example_backend ''abc'')\<lparr>open_read :=
                  (\<lambda>i x. if x = ''/data/a.csv'' then Inr ''abd''
                          else open_read (example_backend ''abc'') i x)\<rparr>) ''/data'' False 3 = Inr ts'
           \<and> (sha256_hexdigest ''abd'' = sha256_hexdigest ''abc''
                \<or> join ''|'' ts' \<noteq> join ''|'' [''/data/a.csv:sha256:'' @ sha256_hexdigest ''abc'',
                                                   ''/data/b.csv:sha256:'' @ sha256_hexdigest ''x,y'']))"
proof -
  let ?b = "example_backend ''abc''"
  let ?nd = "\<lambda>p. \<not> endswith p ''/''"
  have r: "rstrip_slash (url_path (to_abs_file_uri (cwd ?b) ''/data'')) = ''/data''"
    by (simp add: example_root example_backend_def [of "''abc''", THEN arg_cong [of _ _ cwd]])
  have f: "\<forall>i. rel_sum (\<lambda>_ _. True)
             (\<lambda>xs ys. mset (filter ?nd ys) = mset (filter ?nd xs))
             (find_files ?b i ''/data'') (find_with_empty_dir i ''/data'')"
    by (simp add: example_backend_def find_with_empty_dir_def endswith_def)
  have l: "\<forall>i. rel_sum (\<lambda>_ _. True)
             (\<lambda>es es'. \<exists>ds. mset es' = mset es + mset ds
                 \<and> list_all (\<lambda>d. etype d = ''directory''
                       \<and> (case find_with_empty_dir i (ename d) of Inl _ \<Rightarrow> True
                           | Inr ps \<Rightarrow> list_all (\<lambda>p. endswith p ''/'') ps)) ds
                 \<and> list_all (\<lambda>e. filter ?nd
                     (expand_entry (?b\<lparr>find_files := find_with_empty_dir, ls_detail := ls_detail ?b\<rparr>) i e)
                                = filter ?nd (expand_entry ?b i e)) es)
             (ls_detail ?b i ''/data'') (ls_detail ?b i ''/data'')"
    by (simp add: example_backend_def)
  have rd: "\<forall>i. open_read ?b i ''/data/a.csv'' = Inr ''abc''"
    by (simp add: example_backend_def)
  have ls: "retry (list_files ?b (rstrip_slash (url_path (to_abs_file_uri (cwd ?b) ''/data'')))) 3
              = Inr [''/data/a.csv'', ''/data/b.csv'']"
    by (simp only: r example_listing)
  note inst = fingerprint_content_sensitivity
    [where b = "?b" and f' = find_with_empty_dir and l' = "ls_detail ?b" and root = "''/data''"
       and p = "''/data/a.csv''" and c = "''abc''" and c' = "''abd''"
       and fs = "[''/data/a.csv'', ''/data/b.csv'']"]
  from inst [where pe = True and att = 3] f l
  have w1: "compute_data_fingerprint (?b\<lparr>find_files := find_with_empty_dir, ls_detail := ls_detail ?b\<rparr>)
              ''/data'' True 3 = compute_data_fingerprint ?b ''/data'' True 3"
    unfolding r by blast
  have w2: "find_with_empty_dir 0 ''/data'' = Inr [''/data/b.csv'', ''/data/empty/'', ''/data/a.csv'']"
    by (simp add: find_with_empty_dir_def)
  from inst [where pe = False and att = 3
              and ts = "[''/data/a.csv:sha256:'' @ sha256_hexdigest ''abc'',
                         ''/data/b.csv:sha256:'' @ sha256_hexdigest ''x,y'']"]
    rd ls example_tokens_streamed
  have w3: "\<exists>ts'. data_tokens
               (?b\<lparr>open_read := (\<lambda>i x. if x = ''/data/a.csv'' then Inr ''abd''
                                       else open_read ?b i x)\<rparr>) ''/data'' False 3 = Inr ts'
           \<and> (sha256_hexdigest ''abd'' = sha256_hexdigest ''abc''
                \<or> join ''|'' ts' \<noteq> join ''|'' [''/data/a.csv:sha256:'' @ sha256_hexdigest ''abc'',
                                                   ''/data/b.csv:sha256:'' @ sha256_hexdigest ''x,y''])"
    by simp blast
  let ?o = "fallback_backend False"
  let ?n = "fallback_backend True"
  have ff: "\<forall>i. rel_sum (\<lambda>_ _. True)
             (\<lambda>xs ys. mset (filter ?nd ys) = mset (filter ?nd xs))
             (find_files ?o i ''/data'') (find_files ?n i ''/data'')"
    by (simp add: fallback_backend_def)
  have ex: "expand_entry ?n i e = expand_entry ?o i e" if "ename e \<noteq> ''/data/empty''" for i e
    using that by (simp add: expand_entry_def fallback_backend_def)
  have fl: "\<forall>i. rel_sum (\<lambda>_ _. True)
             (\<lambda>es es'. \<exists>ds. mset es' = mset es + mset ds
                 \<and> list_all (\<lambda>d. etype d = ''directory''
                       \<and> (case find_files ?n i (ename d) of Inl _ \<Rightarrow> True
                           | Inr ps \<Rightarrow> list_all (\<lambda>p. endswith p ''/'') ps)) ds
                 \<and> list_all (\<lambda>e. filter ?nd
                     (expand_entry (?o\<lparr>find_files := find_files ?n, ls_detail := ls_detail ?n\<rparr>) i e)
                                = filter ?nd (expand_entry ?o i e)) es)
             (ls_detail ?o i ''/data'') (ls_detail ?n i ''/data'')"
  proof
    fix i
    have "ls_detail ?o i ''/data''
            = Inr [\<lparr>ename = ''/data/a.csv'', etype = ''file''\<rparr>,
                   \<lparr>ename = ''/data/sub'', etype = ''directory''\<rparr>]"
      and "ls_detail ?n i ''/data''
            = Inr [\<lparr>ename = ''/data/a.csv'', etype = ''file''\<rparr>,
                   \<lparr>ename = ''/data/empty'', etype = ''directory''\<rparr>,
                   \<lparr>ename = ''/data/sub'', etype = ''directory''\<rparr>]"
      by (simp_all add: fallback_backend_def)
    moreover have "find_files ?n i ''/data/empty'' = Inr []"
      by (simp add: fallback_backend_def)
    ultimately show "rel_sum (\<lambda>_ _. True)
             (\<lambda>es es'. \<exists>ds. mset es' = mset es + mset ds
                 \<and> list_all (\<lambda>d. etype d = ''directory''
                       \<and> (case find_files ?n i (ename d) of Inl _ \<Rightarrow> True
                           | Inr ps \<Rightarrow> list_all (\<lambda>p. endswith p ''/'') ps)) ds
                 \<and> list_all (\<lambda>e. filter ?nd
                     (expand_entry (?o\<lparr>find_files := find_files ?n, ls_detail := ls_detail ?n\<rparr>) i e)
                                = filter ?nd (expand_entry ?o i e)) es)
             (ls_detail ?o i ''/data'') (ls_detail ?n i ''/data'')"
      by (simp add: fallback_made ex)
  qed
  from fingerprint_content_sensitivity
         [where b = "?o" and f' = "find_files ?n" and l' = "ls_detail ?n" and root = "''/data''"
            and pe = True and att = 3] ff fl
  have w4: "compute_data_fingerprint ?n ''/data'' True 3 = compute_data_fingerprint ?o ''/data'' True 3"
    unfolding fallback_root fallback_made by blast
  have w5: "compute_data_fingerprint ?o ''/data'' True 3
     = Inr (sha256_hexdigest ''/data/a.csv:size:3|/data/sub/c.csv:size:3'')"
    by (simp add: compute_data_fingerprint_def fallback_tokens)
  have w6: "ls_detail ?o 0 ''/data/empty'' = Inl (BackendError ''/data/empty'')"
    "ls_detail ?n 0 ''/data/empty'' = Inr []"
    "find_files ?o 0 ''/data/empty'' = Inl (BackendError ''/data/empty'')"
    "find_files ?n 0 ''/data/empty'' = Inr []"
    by (simp_all add: fallback_backend_def)
  from w1 w2 w3 w4 w5 w6 show ?thesis by blast
qed

text \<open>
  Claim C2 as stated fails for a file whose token is its size: flipping one byte of
  \<^verbatim>\<open>/data/a.csv\<close> leaves the size, the token and the fingerprint as they were.
\<close>

theorem fingerprint_byte_flip_counterexample:
  "compute_data_fingerprint (example_backend ''abc'') ''/data'' True 3
     = Inr (sha256_hexdigest ''/data/a.csv:size:3|/data/b.csv:size:3'')
   \<and> compute_data_fingerprint (example_backend ''abd'') ''/data'' True 3
     = Inr (sha256_hexdigest ''/data/a.csv:size:3|/data/b.csv:size:3'')"
  by (simp add: compute_data_fingerprint_def example_tokens_size example_tokens_size_flipped)

subsection \<open>Content token from a base64 digest\<close>

lemma md5_of_md5_of_empty: "md5_hexdigest md5_of_empty = ''59adb24ef3cdbe0297f05b395827453f''"
  by code_simp

lemma b64_md5_of_empty: "b64encode md5_of_empty = ''1B2M2Y8AsgTpgAmY7PhCfg==''"
  by code_simp

lemma b64decode_md5_of_empty: "b64decode ''1B2M2Y8AsgTpgAmY7PhCfg=='' = Some md5_of_empty"
  by code_simp

lemma hexlify_md5_of_empty: "hexlify md5_of_empty = ''d41d8cd98f00b204e9800998ecf8427e''"
  by code_simp

lemma not_hex32_b64: "\<not> is_hex32 ''1B2M2Y8AsgTpgAmY7PhCfg==''"
  by (simp add: is_hex32_def)

text \<open>
  Claim C4 fails on the code. For metadata whose \<^verbatim>\<open>md5Hash\<close> is the base64 text of the
  MD5 digest of the empty file, \<^verbatim>\<open>_extract_etag_like\<close> returns the MD5 of those 16 bytes
  (\<^verbatim>\<open>hashlib.md5(b).hexdigest()\<close>), not the 16 bytes in hexadecimal, which is what the
  same digest gives when the metadata carries it as a hexadecimal \<^verbatim>\<open>ETag\<close>.
\<close>

theorem extract_etag_like_hashes_base64_digest:
  "length md5_of_empty = 16
   \<and> hexlify md5_of_empty = ''d41d8cd98f00b204e9800998ecf8427e''
   \<and> b64encode md5_of_empty = ''1B2M2Y8AsgTpgAmY7PhCfg==''
   \<and> extract_etag_like [(''md5Hash'', IStr (b64encode md5_of_empty))]
       = Some ''59adb24ef3cdbe0297f05b395827453f''
   \<and> extract_etag_like [(''md5Hash'', IStr (b64encode md5_of_empty))]
       \<noteq> Some (hexlify md5_of_empty)
   \<and> extract_etag_like [(''ETag'', IStr (hexlify md5_of_empty))] = Some (hexlify md5_of_empty)"
proof -
  have v: "etag_of_value (IStr ''1B2M2Y8AsgTpgAmY7PhCfg=='') = Some ''59adb24ef3cdbe0297f05b395827453f''"
    by (simp add: etag_of_value_def not_hex32_b64 b64decode_md5_of_empty md5_of_md5_of_empty)
       (simp add: md5_of_empty_def)
  have e: "extract_etag_like [(''md5Hash'', IStr ''1B2M2Y8AsgTpgAmY7PhCfg=='')]
         = Some ''59adb24ef3cdbe0297f05b395827453f''"
    by (simp add: extract_etag_like_def etag_keys_def info_get_def etag_of_value_def [of INone] v)
  have h: "extract_etag_like [(''ETag'', IStr ''d41d8cd98f00b204e9800998ecf8427e'')]
         = Some ''d41d8cd98f00b204e9800998ecf8427e''"
    by code_simp
  show ?thesis
    using e h by (simp add: b64_md5_of_empty hexlify_md5_of_empty) (simp add: md5_of_empty_def)
qed

end
